theory Spec2Isabelle
  imports Complex_Main "HOL-Library.Char_ord" "HOL-Library.List_Lexorder"
begin

section \<open>Python values used by SkyMemo\<close>

text \<open>
  A Python \<open>dict\<close> keeps its keys in insertion order, and that order is observable
  (iteration in \<open>classify_weather_condition\<close>, the first maximum in \<open>get_statistics\<close>),
  so a dict is an association list with unique keys.  \<open>dict_get\<close> is \<open>d.get(k)\<close>,
  \<open>dict_put\<close> is \<open>d[k] = v\<close>: an existing key keeps its place, a new key goes last.
\<close>

type_synonym ('k, 'v) dict = "('k \<times> 'v) list"

fun dict_get :: "('k, 'v) dict \<Rightarrow> 'k \<Rightarrow> 'v option" where
  "dict_get [] k = None"
| "dict_get ((k', v) # d) k = (if k' = k then Some v else dict_get d k)"

fun dict_put :: "'k \<Rightarrow> 'v \<Rightarrow> ('k, 'v) dict \<Rightarrow> ('k, 'v) dict" where
  "dict_put k v [] = [(k, v)]"
| "dict_put k v ((k', v') # d) = (if k' = k then (k, v) # d else (k', v') # dict_put k v d)"

text \<open>
  Strings are lists of characters.  \<open>lower\<close> is \<open>str.lower()\<close> on ASCII letters,
  \<open>substr_in kw s\<close> is Python's \<open>kw in s\<close>, \<open>replace_char\<close> is
  \<open>s.replace(a, b)\<close> for one-character \<open>a\<close> and \<open>b\<close>.
\<close>

definition lower_char :: "char \<Rightarrow> char" where
  "lower_char c =
     (case map_of (zip ''ABCDEFGHIJKLMNOPQRSTUVWXYZ'' ''abcdefghijklmnopqrstuvwxyz'') c of
        None \<Rightarrow> c
      | Some d \<Rightarrow> d)"

definition lower :: "string \<Rightarrow> string" where
  "lower s = map lower_char s"

fun starts_with :: "string \<Rightarrow> string \<Rightarrow> bool" where
  "starts_with [] s = True"
| "starts_with (k # ks) [] = False"
| "starts_with (k # ks) (c # cs) = (k = c \<and> starts_with ks cs)"

fun substr_in :: "string \<Rightarrow> string \<Rightarrow> bool" where
  "substr_in kw [] = (kw = [])"
| "substr_in kw (c # cs) = (starts_with kw (c # cs) \<or> substr_in kw cs)"

definition replace_char :: "char \<Rightarrow> char \<Rightarrow> string \<Rightarrow> string" where
  "replace_char a b s = map (\<lambda>c. if c = a then b else c) s"


section \<open>config.py\<close>

record mood_info =
  primary_mood :: string
  secondary_moods :: "string list"
  description :: string

definition WEATHER_MOOD_MAP :: "(string, mood_info) dict" where
  "WEATHER_MOOD_MAP =
   [(''sunny'', \<lparr>primary_mood = ''energetic'', secondary_moods = [''hopeful'', ''calm''],
       description = ''bright and uplifting''\<rparr>),
    (''partly_cloudy'', \<lparr>primary_mood = ''calm'', secondary_moods = [''reflective'', ''balanced''],
       description = ''mixed and transitional''\<rparr>),
    (''cloudy'', \<lparr>primary_mood = ''reflective'', secondary_moods = [''calm'', ''introspective''],
       description = ''contemplative and soft''\<rparr>),
    (''rainy'', \<lparr>primary_mood = ''reflective'', secondary_moods = [''melancholic'', ''cozy''],
       description = ''introspective and cozy''\<rparr>),
    (''stormy'', \<lparr>primary_mood = ''intense'', secondary_moods = [''energetic'', ''dramatic''],
       description = ''powerful and dramatic''\<rparr>),
    (''snowy'', \<lparr>primary_mood = ''calm'', secondary_moods = [''peaceful'', ''quiet''],
       description = ''serene and hushed''\<rparr>),
    (''foggy'', \<lparr>primary_mood = ''mysterious'', secondary_moods = [''reflective'', ''uncertain''],
       description = ''unclear and mysterious''\<rparr>),
    (''windy'', \<lparr>primary_mood = ''energetic'', secondary_moods = [''restless'', ''dynamic''],
       description = ''dynamic and changeable''\<rparr>)]"

record temp_modifier =
  threshold :: int
  moods :: "string list"

definition TEMP_MODIFIERS :: "(string, temp_modifier) dict" where
  "TEMP_MODIFIERS =
   [(''very_cold'', \<lparr>threshold = 0, moods = [''cozy'', ''introspective'']\<rparr>),
    (''cold'', \<lparr>threshold = 10, moods = [''crisp'', ''alert'']\<rparr>),
    (''cool'', \<lparr>threshold = 15, moods = [''comfortable'', ''balanced'']\<rparr>),
    (''mild'', \<lparr>threshold = 20, moods = [''pleasant'', ''calm'']\<rparr>),
    (''warm'', \<lparr>threshold = 25, moods = [''energetic'', ''vibrant'']\<rparr>),
    (''hot'', \<lparr>threshold = 30, moods = [''lazy'', ''relaxed'']\<rparr>),
    (''very_hot'', \<lparr>threshold = 35, moods = [''sluggish'', ''seeking_rest'']\<rparr>)]"

definition WEATHER_KEYWORDS :: "(string, string list) dict" where
  "WEATHER_KEYWORDS =
   [(''sunny'', [''sun'', ''sunny'', ''clear'', ''bright'']),
    (''partly_cloudy'', [''partly cloudy'', ''partly sunny'', ''scattered clouds'']),
    (''cloudy'', [''cloudy'', ''overcast'', ''grey'', ''gray'']),
    (''rainy'', [''rain'', ''rainy'', ''drizzle'', ''shower'', ''precipitation'']),
    (''stormy'', [''storm'', ''thunder'', ''lightning'', ''severe'']),
    (''snowy'', [''snow'', ''snowy'', ''flurries'', ''blizzard'']),
    (''foggy'', [''fog'', ''foggy'', ''mist'', ''misty'', ''haze'']),
    (''windy'', [''wind'', ''windy'', ''breezy'', ''gusty''])]"


definition PROMPT_TEMPLATES :: "(string, string list) dict" where
  "PROMPT_TEMPLATES =
   [(''reflective'',
      [''Today's {weather_desc} weather invites reflection. What emotions are sitting with you right now?'',
       ''The {weather_condition} outside mirrors inner contemplation. What thoughts have been recurring lately?'',
       ''In this {weather_desc} moment, what aspects of your life deserve deeper attention?'',
       ''How does today's {weather_condition} weather influence your perspective on recent events?'',
       ''What would you tell your past self about handling days like this {weather_desc} one?'']),
    (''energetic'',
      [''The {weather_desc} weather sparks energy! What goals are you excited to pursue?'',
       ''This {weather_condition} day feels full of possibility. What would you do if you couldn't fail?'',
       ''With {weather_desc} conditions outside, what adventure or project calls to you?'',
       ''The vibrant {weather_condition} weather energizes action. What's one thing you'll accomplish today?'',
       ''This {weather_desc} energy is contagious. What brings you alive right now?'']),
    (''calm'',
      [''The {weather_desc} atmosphere invites peace. What are you grateful for today?'',
       ''In this {weather_condition} stillness, what simple pleasures brought you joy?'',
       ''Today's {weather_desc} weather suggests rest. How can you be kinder to yourself?'',
       ''The gentle {weather_condition} conditions create space for calm. What does your body need right now?'',
       ''This {weather_desc} moment is perfect for appreciation. What went well today?'']),
    (''melancholic'',
      [''The {weather_desc} weather holds space for sadness. What loss or change are you processing?'',
       ''This {weather_condition} day allows for gentle grief. What do you need to let go of?'',
       ''In {weather_desc} weather like this, what memories surface for you?'',
       ''The {weather_condition} atmosphere validates difficult feelings. What hurts right now?'',
       ''This {weather_desc} backdrop supports healing. What wisdom has pain taught you?'']),
    (''hopeful'',
      [''Today's {weather_desc} weather whispers possibility. What new beginning excites you?'',
       ''The {weather_condition} conditions feel like a fresh start. What are you hopeful about?'',
       ''This {weather_desc} day suggests transformation. What positive change do you sense coming?'',
       ''With {weather_condition} weather like this, what dream feels closer to reality?'',
       ''The {weather_desc} atmosphere nurtures hope. What future version of yourself can you envision?'']),
    (''intense'',
      [''Today's {weather_desc} weather matches inner intensity. What strong emotions need expression?'',
       ''The {weather_condition} conditions mirror passion. What are you fired up about?'',
       ''This {weather_desc} energy demands attention. What truth needs to be spoken?'',
       ''The powerful {weather_condition} weather reflects big feelings. What's demanding to be felt?'',
       ''In this {weather_desc} intensity, what bold action is calling you?'']),
    (''cozy'',
      [''The {weather_desc} weather invites coziness. What comforts are you savoring today?'',
       ''This {weather_condition} day is perfect for nesting. What makes you feel safe and warm?'',
       ''Today's {weather_desc} conditions suggest hygge. What small pleasures warmed your heart?'',
       ''The {weather_condition} weather creates a cocoon. What are you protecting or nurturing?'',
       ''This {weather_desc} atmosphere invites softness. How can you pamper yourself today?'']),
    (''balanced'',
      [''Today's {weather_desc} weather suggests equilibrium. What feels in harmony right now?'',
       ''The {weather_condition} conditions mirror balance. Where are you finding your center?'',
       ''This {weather_desc} day invites moderation. What needs right-sizing in your life?'',
       ''The steady {weather_condition} weather reflects stability. What foundations are you building?'',
       ''In this {weather_desc} balance, what opposing forces are you integrating?''])]"


section \<open>weather_handler.py\<close>

text \<open>
  The weather dictionary.  Its readers use \<open>weather_data.get(key, default)\<close>, so every
  key may be absent: \<open>None\<close> is an absent key.  Temperatures are compared with the
  integer thresholds only, and are reals here.
\<close>

record weather_data =
  temperature :: "real option"
  temperature_category :: "string option"
  condition :: "string option"
  condition_raw :: "string option"
  precipitation :: "bool option"
  timestamp :: "string option"
  source :: "string option"

text \<open>
  \<open>classify_weather_condition\<close>: the outer loop walks \<open>WEATHER_KEYWORDS\<close> in its
  declared order, the inner loop returns the category at the first keyword found in the
  lower-cased description.
\<close>

fun first_category :: "string \<Rightarrow> (string, string list) dict \<Rightarrow> string option" where
  "first_category d [] = None"
| "first_category d ((cond, keywords) # rest) =
     (if list_ex (\<lambda>keyword. substr_in keyword d) keywords then Some cond
      else first_category d rest)"

definition classify_weather_condition :: "string \<Rightarrow> string" where
  "classify_weather_condition desc =
     (case first_category (lower desc) WEATHER_KEYWORDS of
        Some cond \<Rightarrow> cond
      | None \<Rightarrow> ''partly_cloudy'')"

text \<open>
  \<open>classify_temperature\<close>: \<open>sorted(TEMP_MODIFIERS.items(), key=threshold, reverse=True)\<close>
  is a stable sort into descending thresholds, which is a stable ascending sort on the
  negated threshold; the loop returns the first category whose threshold is at most
  the temperature, and \<open>very_cold\<close> when the loop ends.
\<close>

definition by_threshold_desc :: "(string, temp_modifier) dict \<Rightarrow> (string, temp_modifier) dict" where
  "by_threshold_desc items = sort_key (\<lambda>x. - threshold (snd x)) items"

fun first_at_most :: "real \<Rightarrow> (string, temp_modifier) dict \<Rightarrow> string option" where
  "first_at_most t [] = None"
| "first_at_most t ((category, info) # rest) =
     (if t \<ge> real_of_int (threshold info) then Some category else first_at_most t rest)"

definition classify_temperature :: "real \<Rightarrow> string" where
  "classify_temperature temp_celsius =
     (case first_at_most temp_celsius (by_threshold_desc TEMP_MODIFIERS) of
        Some category \<Rightarrow> category
      | None \<Rightarrow> ''very_cold'')"

text \<open>\<open>TEMP_MODIFIERS[category]['threshold']\<close>, for reading a category's threshold back.\<close>

definition category_threshold :: "string \<Rightarrow> int option" where
  "category_threshold category = map_option threshold (dict_get TEMP_MODIFIERS category)"

text \<open>\<open>get_weather_manual\<close>; \<open>now\<close> is \<open>datetime.now().isoformat()\<close>.\<close>

definition get_weather_manual :: "string \<Rightarrow> real \<Rightarrow> string \<Rightarrow> bool \<Rightarrow> weather_data" where
  "get_weather_manual now temp cond_text precip =
     (let classified_condition = classify_weather_condition cond_text;
          temp_category = classify_temperature temp;
          classified_condition =
            (if precip \<and> classified_condition = ''cloudy'' then ''rainy''
             else classified_condition)
      in \<lparr>temperature = Some temp,
          temperature_category = Some temp_category,
          condition = Some classified_condition,
          condition_raw = Some cond_text,
          precipitation = Some precip,
          timestamp = Some now,
          source = Some ''manual''\<rparr>)"


section \<open>prompt_generator.py\<close>

datatype py_error = KeyError string | ValueError string

text \<open>
  \<open>determine_moods\<close>.  The fallback row \<open>self.mood_map['partly_cloudy']\<close> is evaluated
  before the \<open>.get\<close>, so a table without that row raises \<open>KeyError\<close> for every
  sample.  The loop appends a temperature mood that is neither already listed nor the
  primary mood.
\<close>

definition merge_temp_moods :: "string \<Rightarrow> string list \<Rightarrow> string list \<Rightarrow> string list" where
  "merge_temp_moods primary temp_moods secondary =
     fold (\<lambda>mood sec. if mood \<notin> set sec \<and> mood \<noteq> primary then sec @ [mood] else sec)
       temp_moods secondary"

definition determine_moods :: "weather_data \<Rightarrow> py_error + (string \<times> string list)" where
  "determine_moods w =
     (let cond = (case condition w of None \<Rightarrow> ''partly_cloudy'' | Some c \<Rightarrow> c);
          temp_category = (case temperature_category w of None \<Rightarrow> ''mild'' | Some c \<Rightarrow> c)
      in case dict_get WEATHER_MOOD_MAP ''partly_cloudy'' of
           None \<Rightarrow> Inl (KeyError ''partly_cloudy'')
         | Some fallback \<Rightarrow>
             (let info = (case dict_get WEATHER_MOOD_MAP cond of None \<Rightarrow> fallback | Some i \<Rightarrow> i);
                  primary = primary_mood info;
                  temp_moods = (case dict_get TEMP_MODIFIERS temp_category of
                                  None \<Rightarrow> [] | Some ti \<Rightarrow> moods ti)
              in Inr (primary, merge_temp_moods primary temp_moods (secondary_moods info))))"

text \<open>
  \<open>str.format\<close> with keyword arguments, for templates whose replacement fields are plain
  names: \<open>{{\<close> and \<open>}}\<close> are escaped braces, \<open>{name}\<close> is replaced by the value of
  \<open>name\<close> (inserted as it is, never scanned again), an unknown name raises \<open>KeyError\<close>,
  an unclosed field or a single \<open>}\<close> raises \<open>ValueError\<close>.
\<close>

datatype fmt_mode = Lit | Field string

fun emit :: "string \<Rightarrow> py_error + string \<Rightarrow> py_error + string" where
  "emit s (Inl e) = Inl e"
| "emit s (Inr r) = Inr (s @ r)"

fun fmt :: "fmt_mode \<Rightarrow> string \<Rightarrow> (string, string) dict \<Rightarrow> py_error + string" where
  "fmt Lit [] kw = Inr []"
| "fmt (Field name) [] kw = Inl (ValueError ''expected } before end of string'')"
| "fmt Lit (c # cs) kw =
     (if c = CHR ''{'' then
        (case cs of
           [] \<Rightarrow> Inl (ValueError ''Single { encountered in format string'')
         | c' # cs' \<Rightarrow> if c' = CHR ''{'' then emit [c'] (fmt Lit cs' kw)
                       else fmt (Field []) cs kw)
      else if c = CHR ''}'' then
        (case cs of
           [] \<Rightarrow> Inl (ValueError ''Single } encountered in format string'')
         | c' # cs' \<Rightarrow> if c' = CHR ''}'' then emit [c'] (fmt Lit cs' kw)
                       else Inl (ValueError ''Single } encountered in format string''))
      else emit [c] (fmt Lit cs kw))"
| "fmt (Field name) (c # cs) kw =
     (if c = CHR ''}'' then
        (case dict_get kw name of
           None \<Rightarrow> Inl (KeyError name)
         | Some v \<Rightarrow> emit v (fmt Lit cs kw))
      else fmt (Field (name @ [c])) cs kw)"

definition format :: "string \<Rightarrow> (string, string) dict \<Rightarrow> py_error + string" where
  "format template kw = fmt Lit template kw"

text \<open>
  The random source is the list of its successive raw draws; \<open>randbelow n\<close> reduces the
  next draw modulo \<open>n\<close> (an exhausted source draws 0).  \<open>random.choice(seq)\<close> is
  \<open>seq[randbelow(len(seq))]\<close>; \<open>random.shuffle(x)\<close> walks \<open>i\<close> from \<open>len(x) - 1\<close>
  down to 1 and swaps \<open>x[i]\<close> with \<open>x[randbelow(i + 1)]\<close>.
\<close>

type_synonym rng = "nat list"

fun randbelow :: "nat \<Rightarrow> rng \<Rightarrow> nat \<times> rng" where
  "randbelow n [] = (0, [])"
| "randbelow n (r # rs) = (r mod n, rs)"

definition swap :: "nat \<Rightarrow> nat \<Rightarrow> 'a list \<Rightarrow> 'a list" where
  "swap i j xs = xs[i := xs ! j, j := xs ! i]"

fun shuffle_from :: "nat \<Rightarrow> 'a list \<Rightarrow> rng \<Rightarrow> 'a list" where
  "shuffle_from 0 xs g = xs"
| "shuffle_from (Suc i) xs g =
     shuffle_from i (swap (Suc i) (fst (randbelow (Suc i + 1) g)) xs)
       (snd (randbelow (Suc i + 1) g))"

definition shuffle :: "'a list \<Rightarrow> rng \<Rightarrow> 'a list" where
  "shuffle xs g = shuffle_from (length xs - 1) xs g"

text \<open>A prompt dictionary; its \<open>text\<close> key is the field \<open>prompt_text\<close>.\<close>

record prompt_dict =
  mood :: string
  prompt_text :: string
  is_primary :: bool

text \<open>
  The state of both loops of \<open>generate_prompts\<close>: the prompts so far, the used templates
  and the random source.
\<close>

type_synonym gen_state = "prompt_dict list \<times> string set \<times> rng"

text \<open>The \<open>for mood in all_moods\<close> loop, with its \<open>break\<close> and both \<open>continue\<close>s.\<close>

fun walk_moods ::
  "(string, string list) dict \<Rightarrow> (string, string) dict \<Rightarrow> string \<Rightarrow> int \<Rightarrow>
   string list \<Rightarrow> gen_state \<Rightarrow> py_error + gen_state" where
  "walk_moods templates kw primary num_prompts [] st = Inr st"
| "walk_moods templates kw primary num_prompts (m # rest) (prompts, used, g) =
     (if int (length prompts) \<ge> num_prompts then Inr (prompts, used, g)
      else case dict_get templates m of
        None \<Rightarrow> walk_moods templates kw primary num_prompts rest (prompts, used, g)
      | Some mood_templates \<Rightarrow>
          (let available = filter (\<lambda>t. t \<notin> used) mood_templates in
           if available = [] then
             walk_moods templates kw primary num_prompts rest (prompts, used, g)
           else
             (let template = available ! fst (randbelow (length available) g);
                  g' = snd (randbelow (length available) g)
              in case format template kw of
                   Inl e \<Rightarrow> Inl e
                 | Inr prompt_txt \<Rightarrow>
                     walk_moods templates kw primary num_prompts rest
                       (prompts @ [\<lparr>mood = m, prompt_text = prompt_txt, is_primary = (m = primary)\<rparr>],
                        insert template used, g'))))"

text \<open>
  The \<open>while len(prompts) < num_prompts and primary_mood in self.templates\<close> loop.  Each
  round uses up one more template of the primary mood, which is why it ends.
\<close>

function fill_primary ::
  "(string, string list) dict \<Rightarrow> (string, string) dict \<Rightarrow> string \<Rightarrow> int \<Rightarrow>
   gen_state \<Rightarrow> py_error + gen_state" where
  "fill_primary templates kw primary num_prompts (prompts, used, g) =
     (if int (length prompts) < num_prompts then
        (case dict_get templates primary of
           None \<Rightarrow> Inr (prompts, used, g)
         | Some primary_templates \<Rightarrow>
             (let available = filter (\<lambda>t. t \<notin> used) primary_templates in
              if available = [] then Inr (prompts, used, g)
              else
                (let template = available ! fst (randbelow (length available) g);
                     g' = snd (randbelow (length available) g)
                 in case format template kw of
                      Inl e \<Rightarrow> Inl e
                    | Inr prompt_txt \<Rightarrow>
                        fill_primary templates kw primary num_prompts
                          (prompts @ [\<lparr>mood = primary, prompt_text = prompt_txt, is_primary = True\<rparr>],
                           insert template used, g'))))
      else Inr (prompts, used, g))"
  by pat_completeness auto
termination
proof (relation "measure (\<lambda>(templates, kw, primary, num_prompts, prompts, used, g).
          case dict_get templates primary of
            None \<Rightarrow> 0
          | Some ts \<Rightarrow> length (filter (\<lambda>t. t \<notin> used) ts))")
  show "wf (measure (\<lambda>(templates, kw, primary, num_prompts, prompts, used, g).
          case dict_get templates primary of
            None \<Rightarrow> 0
          | Some ts \<Rightarrow> length (filter (\<lambda>t. t \<notin> used) ts)))"
    by simp
next
  fix templates :: "(string, string list) dict" and kw :: "(string, string) dict"
    and primary :: string and num_prompts :: int and prompts :: "prompt_dict list"
    and used :: "string set" and g :: rng and ts available template g' prompt_txt
  assume ts: "dict_get templates primary = Some ts"
    and av: "available = filter (\<lambda>t. t \<notin> used) ts" "available \<noteq> []"
    and tm: "template = available ! fst (randbelow (length available) g)"
  have "fst (randbelow (length available) g) < length available"
    using av(2) by (cases g) simp_all
  then have mem: "template \<in> set available"
    using tm by simp
  have "filter (\<lambda>t. t \<notin> insert template used) ts = filter (\<lambda>t. t \<noteq> template) available"
    by (simp add: av(1) conj_commute)
  moreover have "length (filter (\<lambda>t. t \<noteq> template) available) < length available"
    using mem by (simp add: length_filter_less)
  ultimately show
    "((templates, kw, primary, num_prompts,
       prompts @ [\<lparr>mood = primary, prompt_text = prompt_txt, is_primary = True\<rparr>],
       insert template used, g'),
      (templates, kw, primary, num_prompts, prompts, used, g))
     \<in> measure (\<lambda>(templates, kw, primary, num_prompts, prompts, used, g).
          case dict_get templates primary of
            None \<Rightarrow> 0
          | Some ts \<Rightarrow> length (filter (\<lambda>t. t \<notin> used) ts))"
    using ts av(1) by simp
qed

text \<open>
  \<open>generate_prompts\<close>.  \<open>condition_raw\<close> is read and never used.  The keyword arguments
  of the rendering are the description of the weather row and the condition with its
  underscores turned into spaces.
\<close>

definition format_args :: "string \<Rightarrow> string \<Rightarrow> (string, string) dict" where
  "format_args weather_desc cond =
     [(''weather_desc'', weather_desc),
      (''weather_condition'', replace_char CHR ''_'' CHR '' '' cond)]"

definition generate_prompts :: "rng \<Rightarrow> weather_data \<Rightarrow> int \<Rightarrow> py_error + prompt_dict list" where
  "generate_prompts g w num_prompts =
     (let cond = (case condition w of None \<Rightarrow> ''partly_cloudy'' | Some c \<Rightarrow> c) in
      case dict_get WEATHER_MOOD_MAP ''partly_cloudy'' of
        None \<Rightarrow> Inl (KeyError ''partly_cloudy'')
      | Some fallback \<Rightarrow>
          (let info = (case dict_get WEATHER_MOOD_MAP cond of None \<Rightarrow> fallback | Some i \<Rightarrow> i);
               kw = format_args (description info) cond
           in case determine_moods w of
                Inl e \<Rightarrow> Inl e
              | Inr (primary, secondary) \<Rightarrow>
                  (case walk_moods PROMPT_TEMPLATES kw primary num_prompts
                          (primary # secondary) ([], {}, g) of
                     Inl e \<Rightarrow> Inl e
                   | Inr st \<Rightarrow>
                       (case fill_primary PROMPT_TEMPLATES kw primary num_prompts st of
                          Inl e \<Rightarrow> Inl e
                        | Inr (prompts, used, g') \<Rightarrow> Inr (shuffle prompts g')))))"


section \<open>journal_manager.py\<close>

text \<open>
  The journal text is a Python string of any characters, a list of Unicode code points.
\<close>

type_synonym unicode = "nat list"

text \<open>
  The weather dictionary embedded in an entry.  Its readers tell a key that is absent
  from a key that holds \<open>None\<close>: \<open>.get('condition', 'unknown')\<close> gives \<open>unknown\<close> for
  the first and \<open>None\<close> for the second.  So each key is \<open>Absent\<close> or \<open>Present\<close> with
  its value, and the value \<open>None\<close> of Python is \<open>None\<close>.  \<open>create_entry\<close> always writes
  the four keys; an entry without the key \<open>weather\<close> reads as one with four absent keys.
\<close>

datatype 'a pykey = Absent | Present 'a

record entry_weather =
  w_temperature :: "real option pykey"
  w_condition :: "string option pykey"
  w_condition_raw :: "string option pykey"
  w_precipitation :: "bool pykey"

text \<open>
  A journal entry, as \<open>create_entry\<close> writes it.  The keys that the readers fetch with
  \<open>.get\<close> may be absent (\<open>None\<close>); \<open>updated_at\<close> exists only after an update.
  \<open>date\<close> is the calendar day of the stored \<open>YYYY-MM-DD\<close> text, as the day
  number that \<open>datetime.fromisoformat\<close> assigns to it: the zero-padded text sorts as the day
  number does, and the difference of two dates in days is the difference of the numbers.
  The keys \<open>id\<close>, \<open>timestamp\<close> and \<open>text\<close> are the fields \<open>entry_id\<close>,
  \<open>entry_timestamp\<close> and \<open>entry_text\<close>.
\<close>

record entry =
  entry_id :: string
  entry_timestamp :: string
  date :: "int option"
  weather :: entry_weather
  mood_tags :: "string list option"
  prompt :: string
  entry_text :: unicode
  word_count :: "int option"
  updated_at :: "string option"

text \<open>\<open>entry.get('weather', {}).get('condition')\<close>: \<open>None\<close> for an absent key too.\<close>

definition entry_condition :: "entry \<Rightarrow> string option" where
  "entry_condition e = (case w_condition (weather e) of Absent \<Rightarrow> None | Present v \<Rightarrow> v)"

text \<open>
  \<open>str.split()\<close> without arguments: the maximal runs of characters that are not
  whitespace.  The whitespace characters of Python are the code points 0x09 to 0x0D,
  0x1C to 0x20, 0x85, 0xA0, 0x1680, 0x2000 to 0x200A, 0x2028, 0x2029, 0x202F, 0x205F and
  0x3000.
\<close>

definition is_space :: "nat \<Rightarrow> bool" where
  "is_space c =
     ((0x09 \<le> c \<and> c \<le> 0x0D) \<or> (0x1C \<le> c \<and> c \<le> 0x20) \<or> c = 0x85 \<or> c = 0xA0
      \<or> c = 0x1680 \<or> (0x2000 \<le> c \<and> c \<le> 0x200A) \<or> c = 0x2028 \<or> c = 0x2029
      \<or> c = 0x202F \<or> c = 0x205F \<or> c = 0x3000)"

fun split_from :: "unicode \<Rightarrow> unicode \<Rightarrow> unicode list" where
  "split_from cur [] = (if cur = [] then [] else [cur])"
| "split_from cur (c # cs) =
     (if is_space c then (if cur = [] then split_from [] cs else cur # split_from [] cs)
      else split_from (cur @ [c]) cs)"

definition split :: "unicode \<Rightarrow> unicode list" where
  "split s = split_from [] s"

text \<open>
  The entries file is the state: \<open>_load_entries\<close> reads the list, \<open>_save_entries\<close>
  replaces it.  An operation takes the stored list and returns its result together with
  the stored list afterwards.
\<close>

text \<open>
  \<open>create_entry\<close>: the new entry goes to the front of the stored list.  The three calls
  of \<open>datetime.now()\<close> give the id, the timestamp and the day.  The embedded weather
  dictionary copies four keys of the sample: a key that the sample lacks is written
  with the value \<open>None\<close>.
\<close>

definition create_entry ::
  "string \<Rightarrow> string \<Rightarrow> int \<Rightarrow> entry list \<Rightarrow> weather_data \<Rightarrow> string list \<Rightarrow> string \<Rightarrow> unicode
   \<Rightarrow> entry \<times> entry list" where
  "create_entry now_id now_timestamp today entries wd tags chosen_prompt journal_text =
     (let e = \<lparr>entry_id = now_id,
                entry_timestamp = now_timestamp,
                date = Some today,
                weather = \<lparr>w_temperature = Present (temperature wd),
                            w_condition = Present (condition wd),
                            w_condition_raw = Present (condition_raw wd),
                            w_precipitation =
                              Present (case precipitation wd of None \<Rightarrow> False | Some b \<Rightarrow> b)\<rparr>,
                mood_tags = Some tags,
                prompt = chosen_prompt,
                entry_text = journal_text,
                word_count = Some (int (length (split journal_text))),
                updated_at = None\<rparr>
      in (e, e # entries))"

definition get_all_entries :: "entry list \<Rightarrow> int option \<Rightarrow> entry list" where
  "get_all_entries entries limit =
     (case limit of
        None \<Rightarrow> entries
      | Some n \<Rightarrow>
          if n \<noteq> 0 then
            (if n < 0 then take (nat (int (length entries) + n)) entries
             else take (nat n) entries)
          else entries)"

text \<open>
  \<open>update_entry\<close>: the loop stops at the first entry with the id, changes it in place,
  saves the list and returns \<open>True\<close>; \<open>now\<close> is \<open>datetime.now().isoformat()\<close>.
\<close>

fun update_first :: "string \<Rightarrow> string \<Rightarrow> unicode \<Rightarrow> entry list \<Rightarrow> entry list option" where
  "update_first now eid updated_text [] = None"
| "update_first now eid updated_text (e # es) =
     (if entry_id e = eid then
        Some (e\<lparr>entry_text := updated_text,
                word_count := Some (int (length (split updated_text))),
                updated_at := Some now\<rparr> # es)
      else map_option ((#) e) (update_first now eid updated_text es))"

definition update_entry :: "string \<Rightarrow> entry list \<Rightarrow> string \<Rightarrow> unicode \<Rightarrow> bool \<times> entry list" where
  "update_entry now entries eid updated_text =
     (case update_first now eid updated_text entries of
        Some entries' \<Rightarrow> (True, entries')
      | None \<Rightarrow> (False, entries))"

text \<open>\<open>_calculate_longest_streak\<close>, on the sorted distinct dates.\<close>

fun longest_from :: "int \<Rightarrow> int \<Rightarrow> int \<Rightarrow> int list \<Rightarrow> int" where
  "longest_from prev_date max_streak current_streak [] = max_streak"
| "longest_from prev_date max_streak current_streak (curr_date # rest) =
     (if curr_date - prev_date = 1 then
        longest_from curr_date (max max_streak (current_streak + 1)) (current_streak + 1) rest
      else longest_from curr_date max_streak 1 rest)"

fun calculate_longest_streak :: "int list \<Rightarrow> int" where
  "calculate_longest_streak [] = 0"
| "calculate_longest_streak (d # ds) = longest_from d 1 1 ds"

text \<open>
  \<open>_calculate_current_streak\<close>: the dates from the most recent one backwards, the
  \<open>i\<close>-th of them compared with \<open>today - i\<close>; the loop breaks at the first difference.
\<close>

fun current_from :: "int \<Rightarrow> int \<Rightarrow> int \<Rightarrow> int list \<Rightarrow> int" where
  "current_from today i streak [] = streak"
| "current_from today i streak (d # ds) =
     (if d = today - i then current_from today (i + 1) (streak + 1) ds else streak)"

definition calculate_current_streak :: "int \<Rightarrow> int list \<Rightarrow> int" where
  "calculate_current_streak today dates =
     (if dates = [] then 0 else current_from today 0 0 (rev dates))"

text \<open>
  \<open>get_statistics\<close> returns a dictionary of values of these kinds.  The frequency
  dictionaries count with \<open>d[k] = d.get(k, 0) + 1\<close>; \<open>max(d.items(), key=count)\<close>
  returns the first item with the greatest count.
\<close>

datatype stat_value =
  VInt int | VFloat real | VNone | VStr string | VDict "(string, int) dict"

definition count_up :: "string \<Rightarrow> (string, int) dict \<Rightarrow> (string, int) dict" where
  "count_up k d = dict_put k ((case dict_get d k of None \<Rightarrow> 0 | Some n \<Rightarrow> n) + 1) d"

fun first_max :: "string \<times> int \<Rightarrow> (string, int) dict \<Rightarrow> string \<times> int" where
  "first_max best [] = best"
| "first_max best (x # xs) = first_max (if snd x > snd best then x else best) xs"

definition most_common :: "(string, int) dict \<Rightarrow> stat_value" where
  "most_common d = (case d of [] \<Rightarrow> VNone | x # xs \<Rightarrow> VStr (fst (first_max x xs)))"

definition tags_of :: "entry \<Rightarrow> string list" where
  "tags_of e = (case mood_tags e of None \<Rightarrow> [] | Some ts \<Rightarrow> ts)"

definition mood_counts_of :: "entry list \<Rightarrow> (string, int) dict" where
  "mood_counts_of entries = fold (\<lambda>e d. fold count_up (tags_of e) d) entries []"

definition weather_counts_of :: "entry list \<Rightarrow> (string, int) dict" where
  "weather_counts_of entries =
     fold (\<lambda>e d. case entry_condition e of
                   None \<Rightarrow> d
                 | Some c \<Rightarrow> if c \<noteq> [] then count_up c d else d) entries []"

definition entry_dates :: "entry list \<Rightarrow> int list" where
  "entry_dates entries = sort (remdups (List.map_filter date entries))"

text \<open>
  \<open>round1\<close> stands for the floating-point \<open>round(total_words / total_entries, 1)\<close>, applied
  here to the exact quotient; \<open>today\<close> is \<open>datetime.now().date()\<close>.
\<close>

definition get_statistics ::
  "(real \<Rightarrow> real) \<Rightarrow> int \<Rightarrow> entry list \<Rightarrow> (string, stat_value) dict" where
  "get_statistics round1 today entries =
     (if entries = [] then
        [(''total_entries'', VInt 0),
         (''total_words'', VInt 0),
         (''avg_words_per_entry'', VInt 0),
         (''most_common_mood'', VNone),
         (''most_common_weather'', VNone),
         (''longest_streak'', VInt 0),
         (''current_streak'', VInt 0)]
      else
        (let total_entries = int (length entries);
             total_words = sum_list (map (\<lambda>e. case word_count e of None \<Rightarrow> 0 | Some n \<Rightarrow> n) entries);
             avg_words = (if total_entries > 0 then real_of_int total_words / real_of_int total_entries
                          else 0);
             mood_counts = mood_counts_of entries;
             weather_counts = weather_counts_of entries;
             dates = entry_dates entries
         in [(''total_entries'', VInt total_entries),
             (''total_words'', VInt total_words),
             (''avg_words_per_entry'', VFloat (round1 avg_words)),
             (''most_common_mood'', most_common mood_counts),
             (''most_common_weather'', most_common weather_counts),
             (''longest_streak'', VInt (calculate_longest_streak dates)),
             (''current_streak'', VInt (calculate_current_streak today dates)),
             (''mood_distribution'', VDict mood_counts),
             (''weather_distribution'', VDict weather_counts)]))"


section \<open>visualizer.py\<close>

text \<open>
  The data of the heat map of \<open>create_weather_mood_correlation\<close>: the columns \<open>x\<close> (the
  moods), the rows \<open>y\<close> (the conditions; the figure labels them with the condition in
  title case) and the matrix \<open>z\<close>.  An empty entry list gives the figure without data
  (\<open>None\<close>).  The counts are kept under the key \<open>f"{weather}_{mood}"\<close>, where
  \<open>weather\<close> is \<open>.get('condition', 'unknown')\<close>: \<open>unknown\<close> for an entry without the
  key, and the text \<open>None\<close> for an entry whose condition is \<open>None\<close>.  The rows are the
  conditions that are truthy.
\<close>

record heatmap =
  moods_x :: "string list"
  weathers_y :: "string list"
  matrix_z :: "int list list"

definition pair_key :: "string \<Rightarrow> string \<Rightarrow> string" where
  "pair_key w m = w @ ''_'' @ m"

definition weather_key :: "entry \<Rightarrow> string" where
  "weather_key e =
     (case w_condition (weather e) of
        Absent \<Rightarrow> ''unknown''
      | Present None \<Rightarrow> ''None''
      | Present (Some c) \<Rightarrow> c)"

definition weather_mood_pairs_of :: "entry list \<Rightarrow> (string, int) dict" where
  "weather_mood_pairs_of entries =
     fold (\<lambda>e d. fold (\<lambda>m. count_up (pair_key (weather_key e) m)) (tags_of e) d) entries []"

definition observed_weathers :: "entry list \<Rightarrow> string list" where
  "observed_weathers entries =
     sort (remdups (List.map_filter
       (\<lambda>e. case entry_condition e of
               None \<Rightarrow> None
             | Some c \<Rightarrow> if c \<noteq> [] then Some c else None) entries))"

definition observed_moods :: "entry list \<Rightarrow> string list" where
  "observed_moods entries = sort (remdups (concat (map tags_of entries)))"

definition cell :: "(string, int) dict \<Rightarrow> string \<Rightarrow> string \<Rightarrow> int" where
  "cell pairs w m = (case dict_get pairs (pair_key w m) of None \<Rightarrow> 0 | Some n \<Rightarrow> n)"

definition create_weather_mood_correlation :: "entry list \<Rightarrow> heatmap option" where
  "create_weather_mood_correlation entries =
     (if entries = [] then None
      else
        (let weather_mood_pairs = weather_mood_pairs_of entries;
             weathers = observed_weathers entries;
             all_moods = observed_moods entries
         in Some \<lparr>moods_x = all_moods,
                  weathers_y = weathers,
                  matrix_z = map (\<lambda>w. map (\<lambda>m. cell weather_mood_pairs w m) all_moods) weathers\<rparr>))"


section \<open>Notions used in the statements and proofs\<close>

text \<open>
  The row of \<open>WEATHER_MOOD_MAP\<close> that both functions of the prompt generator read for a
  sample: the row of its condition, or the \<open>partly_cloudy\<close> row.
\<close>

definition mood_row :: "weather_data \<Rightarrow> mood_info" where
  "mood_row w =
     (case dict_get WEATHER_MOOD_MAP (case condition w of None \<Rightarrow> ''partly_cloudy'' | Some c \<Rightarrow> c) of
        None \<Rightarrow> \<lparr>primary_mood = ''calm'', secondary_moods = [''reflective'', ''balanced''],
           description = ''mixed and transitional''\<rparr>
      | Some i \<Rightarrow> i)"

text \<open>
  The whitespace-delimited token count of a text, said without building the tokens: the
  number of characters that are not whitespace and that start the text or follow a
  whitespace character.
\<close>

fun word_starts :: "bool \<Rightarrow> unicode \<Rightarrow> nat" where
  "word_starts in_word [] = 0"
| "word_starts in_word (c # cs) =
     (if is_space c then word_starts False cs
      else (if in_word then 0 else 1) + word_starts True cs)"

definition token_count :: "unicode \<Rightarrow> nat" where
  "token_count s = word_starts False s"

text \<open>
  A journal of three entries, written on three consecutive days (the days numbered
  738946 to 738948 are 1 to 3 March 2024), newest first as \<open>create_entry\<close> stores them;
  and a text of two words with a no-break space (0xA0) between them.
\<close>

definition two_words :: unicode where
  "two_words = [116, 119, 111, 160, 119, 111, 114, 100, 115]"

definition example_weather :: "string \<Rightarrow> weather_data" where
  "example_weather c =
     \<lparr>temperature = Some 12, temperature_category = Some ''cold'', condition = Some c,
      condition_raw = Some c, precipitation = Some False, timestamp = None, source = Some ''manual''\<rparr>"

definition example_journal :: "entry list" where
  "example_journal =
     snd (create_entry ''2024-03-03T09:00:00'' ''2024-03-03T09:00:00'' 738948
       (snd (create_entry ''2024-03-02T09:00:00'' ''2024-03-02T09:00:00'' 738947
         (snd (create_entry ''2024-03-01T09:00:00'' ''2024-03-01T09:00:00'' 738946 []
            (example_weather ''rainy'') [''reflective'', ''cozy''] ''What hurts?''
            (map of_char ''rain all day'')))
         (example_weather ''sunny'') [''energetic''] ''What calls you?'' (map of_char ''a long walk'')))
       (example_weather ''sunny'') [''energetic'', ''hopeful''] ''What went well?'' (map of_char ''ok''))"


text \<open>
  The invariant of the loop of \<open>_calculate_longest_streak\<close> over the dates \<open>P\<close> seen so
  far: \<open>prev\<close> is the latest of them, \<open>cur\<close> is the length of the run of consecutive
  days that ends at \<open>prev\<close>, and \<open>mx\<close> is the length of a longest run of consecutive
  days within \<open>P\<close>.
\<close>

definition streak_inv :: "int set \<Rightarrow> int \<Rightarrow> int \<Rightarrow> int \<Rightarrow> bool" where
  "streak_inv P prev mx cur =
     (prev \<in> P \<and> (\<forall>y\<in>P. y \<le> prev) \<and> 1 \<le> cur \<and> cur \<le> mx
      \<and> {prev - cur + 1 .. prev} \<subseteq> P \<and> prev - cur \<notin> P
      \<and> (\<exists>a. {a ..< a + mx} \<subseteq> P)
      \<and> (\<forall>a n. {a ..< a + n} \<subseteq> P \<longrightarrow> n \<le> mx))"

text \<open>
  For the correlation grid: the list of (condition, mood tag) occurrences of a journal,
  one for every tag in the list of every entry, where the condition is the text under
  which the grid files the entry (\<open>weather_key\<close>); the key under which the grid counts
  an occurrence; and the number of occurrences of a given condition and mood.
\<close>

definition tag_pairs :: "entry list \<Rightarrow> (string \<times> string) list" where
  "tag_pairs entries = concat (map (\<lambda>e. map (\<lambda>m. (weather_key e, m)) (tags_of e)) entries)"

definition key_of :: "string \<times> string \<Rightarrow> string" where
  "key_of p = pair_key (fst p) (snd p)"

definition occurrences :: "entry list \<Rightarrow> string \<Rightarrow> string \<Rightarrow> int" where
  "occurrences entries w m = int (length (filter (\<lambda>p. p = (w, m)) (tag_pairs entries)))"

text \<open>
  The keys are unambiguous for a journal when the combinations of its conditions with its
  mood tags all have different keys.  (\<open>partly\<close> with \<open>cloudy_calm\<close> and
  \<open>partly_cloudy\<close> with \<open>calm\<close> have the same key.)
\<close>

definition keys_unambiguous :: "entry list \<Rightarrow> bool" where
  "keys_unambiguous entries =
     distinct (map key_of (List.product (remdups (map weather_key entries)) (observed_moods entries)))"

text \<open>The count that a frequency dictionary holds for a key, 0 for a key it lacks.\<close>

definition cnt :: "(string, int) dict \<Rightarrow> string \<Rightarrow> int" where
  "cnt d k = (case dict_get d k of None \<Rightarrow> 0 | Some n \<Rightarrow> n)"

text \<open>
  Example journals for the grid: the two entries of the specification's example, one
  entry that lists a tag twice, two entries whose keys collide, and an entry written by
  \<open>create_entry\<close> from a sample without a condition beside an entry of the condition
  \<open>unknown\<close>.
\<close>

definition tagged_entry :: "string \<Rightarrow> string list \<Rightarrow> entry" where
  "tagged_entry c tags =
     fst (create_entry ''2024-03-01T09:00:00'' ''2024-03-01T09:00:00'' 738946 []
            (example_weather c) tags ''What hurts?'' (map of_char ''rain all day''))"

definition no_condition_example :: "entry list" where
  "no_condition_example =
     [fst (create_entry ''2024-03-02T09:00:00'' ''2024-03-02T09:00:00'' 738947 []
             ((example_weather ''cloudy'')\<lparr>condition := None\<rparr>) [''calm''] ''What hurts?''
             (map of_char ''rain all day'')),
      tagged_entry ''unknown'' [''calm'']]"

definition grid_example :: "entry list" where
  "grid_example = [tagged_entry ''rainy'' [''reflective'', ''cozy''], tagged_entry ''sunny'' [''energetic'']]"

definition repeated_tag_example :: "entry list" where
  "repeated_tag_example = [tagged_entry ''rainy'' [''cozy'', ''cozy'']]"

definition colliding_keys_example :: "entry list" where
  "colliding_keys_example =
     [tagged_entry ''partly'' [''cloudy_calm''], tagged_entry ''partly_cloudy'' [''calm'']]"

text \<open>
  For the prompt generator: all templates of the table; a text without braces; the three
  parts of a template with one replacement field (the text before the field, the name of
  the field, the text after it); the templates of the shape that \<open>PROMPT_TEMPLATES\<close>
  uses, one field named \<open>weather_desc\<close> or \<open>weather_condition\<close> between two
  texts without braces; and a signature of a text, its first two characters and, unless
  these are \<open>Wh\<close>, its last twelve, which a rendering shares with its template.
\<close>

definition all_templates :: "string list" where
  "all_templates = concat (map snd PROMPT_TEMPLATES)"

definition brace_free :: "string \<Rightarrow> bool" where
  "brace_free s = (CHR ''{'' \<notin> set s \<and> CHR ''}'' \<notin> set s)"

definition lit_before :: "string \<Rightarrow> string" where
  "lit_before t = takeWhile (\<lambda>c. c \<noteq> CHR ''{'') t"

definition field_name :: "string \<Rightarrow> string" where
  "field_name t = takeWhile (\<lambda>c. c \<noteq> CHR ''}'') (tl (dropWhile (\<lambda>c. c \<noteq> CHR ''{'') t))"

definition lit_after :: "string \<Rightarrow> string" where
  "lit_after t = tl (dropWhile (\<lambda>c. c \<noteq> CHR ''}'') t)"

definition single_field :: "string \<Rightarrow> bool" where
  "single_field t =
     (t = lit_before t @ CHR ''{'' # field_name t @ CHR ''}'' # lit_after t
      \<and> brace_free (lit_before t) \<and> brace_free (field_name t) \<and> brace_free (lit_after t)
      \<and> (field_name t = ''weather_desc'' \<or> field_name t = ''weather_condition'')
      \<and> 2 \<le> length (lit_before t)
      \<and> (take 2 t = ''Wh'' \<or> 12 \<le> length (lit_after t)))"

definition signature :: "string \<Rightarrow> string \<times> string" where
  "signature s = (take 2 s, if take 2 s = ''Wh'' then [] else take 12 (rev s))"

text \<open>
  The invariant of the two loops of \<open>generate_prompts\<close>: at most \<open>max 0 N\<close> prompts,
  and the prompts are the renderings of distinct used templates of the pool.
\<close>

definition gen_inv :: "string list \<Rightarrow> (string, string) dict \<Rightarrow> int \<Rightarrow> gen_state \<Rightarrow> bool" where
  "gen_inv pool kw N st =
     (int (length (fst st)) \<le> max 0 N
      \<and> (\<exists>ts. distinct ts \<and> set ts \<subseteq> fst (snd st) \<and> set ts \<subseteq> set pool
             \<and> list_all2 (\<lambda>p t. format t kw = Inr (prompt_text p)) (fst st) ts))"


section \<open>Properties of the weather classifier\<close>

lemma by_threshold_desc_TEMP_MODIFIERS:
  "by_threshold_desc TEMP_MODIFIERS =
   [(''very_hot'', \<lparr>threshold = 35, moods = [''sluggish'', ''seeking_rest'']\<rparr>),
    (''hot'', \<lparr>threshold = 30, moods = [''lazy'', ''relaxed'']\<rparr>),
    (''warm'', \<lparr>threshold = 25, moods = [''energetic'', ''vibrant'']\<rparr>),
    (''mild'', \<lparr>threshold = 20, moods = [''pleasant'', ''calm'']\<rparr>),
    (''cool'', \<lparr>threshold = 15, moods = [''comfortable'', ''balanced'']\<rparr>),
    (''cold'', \<lparr>threshold = 10, moods = [''crisp'', ''alert'']\<rparr>),
    (''very_cold'', \<lparr>threshold = 0, moods = [''cozy'', ''introspective'']\<rparr>)]"
  by (simp add: by_threshold_desc_def TEMP_MODIFIERS_def)

lemma classify_temperature_bands:
  "classify_temperature t =
     (if 35 \<le> t then ''very_hot''
      else if 30 \<le> t then ''hot''
      else if 25 \<le> t then ''warm''
      else if 20 \<le> t then ''mild''
      else if 15 \<le> t then ''cool''
      else if 10 \<le> t then ''cold''
      else ''very_cold'')"
  by (simp add: classify_temperature_def by_threshold_desc_TEMP_MODIFIERS)

lemma classify_overcast: "classify_weather_condition ''overcast'' = ''cloudy''"
  by (simp add: classify_weather_condition_def lower_def lower_char_def WEATHER_KEYWORDS_def)

lemma category_threshold_classify:
  "category_threshold (classify_temperature t) =
     Some (if 35 \<le> t then 35 else if 30 \<le> t then 30 else if 25 \<le> t then 25
           else if 20 \<le> t then 20 else if 15 \<le> t then 15 else if 10 \<le> t then 10 else 0)"
  by (simp add: classify_temperature_bands category_threshold_def TEMP_MODIFIERS_def)

text \<open>
  Claim C1, as the code has it.  The manual sample built from temperature 5, the text
  \<open>overcast\<close> and precipitation is classified \<open>cloudy\<close> and overridden to \<open>rainy\<close>;
  the override fires exactly when there is precipitation and the classified condition is
  \<open>cloudy\<close>.  Its temperature category is \<open>very_cold\<close>: 5 is below the threshold 10 of
  \<open>cold\<close>, and the first threshold at most 5 is the threshold 0 of \<open>very_cold\<close>.
\<close>

theorem manual_sample_overcast:
  "classify_weather_condition ''overcast'' = ''cloudy''
   \<and> condition (get_weather_manual now 5 ''overcast'' True) = Some ''rainy''
   \<and> temperature_category (get_weather_manual now 5 ''overcast'' True) = Some ''very_cold''
   \<and> condition (get_weather_manual now t c p) =
       Some (if p \<and> classify_weather_condition c = ''cloudy'' then ''rainy''
             else classify_weather_condition c)"
  by (simp add: get_weather_manual_def classify_overcast classify_temperature_bands Let_def)

text \<open>
  Claim C1 as it is written asks for the category \<open>cold\<close>, which this sample does not
  have.
\<close>

theorem manual_sample_overcast_not_cold:
  "temperature_category (get_weather_manual ''2024-01-01T09:00:00'' 5 ''overcast'' True)
     \<noteq> Some ''cold''"
  by (simp add: get_weather_manual_def classify_temperature_bands Let_def)

text \<open>
  Claim C2.  \<open>classify_temperature\<close> is monotonic: for temperatures \<open>t1 \<le> t2\<close> the
  threshold of the category of \<open>t1\<close> is at most the threshold of the category of \<open>t2\<close>;
  and a temperature below every threshold of \<open>TEMP_MODIFIERS\<close> is \<open>very_cold\<close>.
\<close>

theorem classify_temperature_monotonic:
  "(t1 \<le> t2 \<longrightarrow>
      (\<exists>a b. category_threshold (classify_temperature t1) = Some a
           \<and> category_threshold (classify_temperature t2) = Some b \<and> a \<le> b))
   \<and> (list_all (\<lambda>item. t < real_of_int (threshold (snd item))) TEMP_MODIFIERS
        \<longrightarrow> classify_temperature t = ''very_cold'')"
proof (intro conjI impI)
  assume "t1 \<le> t2"
  then show "\<exists>a b. category_threshold (classify_temperature t1) = Some a
           \<and> category_threshold (classify_temperature t2) = Some b \<and> a \<le> b"
    unfolding category_threshold_classify by auto
next
  assume "list_all (\<lambda>item. t < real_of_int (threshold (snd item))) TEMP_MODIFIERS"
  then show "classify_temperature t = ''very_cold''"
    by (simp add: classify_temperature_bands TEMP_MODIFIERS_def)
qed

text \<open>
  The monotonicity at 5 and 12 degrees (thresholds 0 and 10), and \<open>very_cold\<close> at 3
  degrees below zero, which is below every threshold.
\<close>

theorem classify_temperature_monotonic_witness:
  "(5::real) \<le> 12
   \<and> list_all (\<lambda>item. (-3) < real_of_int (threshold (snd item))) TEMP_MODIFIERS
   \<and> category_threshold (classify_temperature 5) = Some 0
   \<and> category_threshold (classify_temperature 12) = Some 10
   \<and> (\<exists>a b. category_threshold (classify_temperature 5) = Some a
           \<and> category_threshold (classify_temperature 12) = Some b \<and> a \<le> b)
   \<and> classify_temperature (-3) = ''very_cold''"
  using classify_temperature_monotonic [of 5 12 "-3"]
  by (simp add: category_threshold_classify TEMP_MODIFIERS_def)

section \<open>Properties of the mood resolver\<close>

lemma merge_temp_moods_inv:
  "distinct sec \<Longrightarrow> primary \<notin> set sec \<Longrightarrow>
   distinct (merge_temp_moods primary tms sec) \<and> primary \<notin> set (merge_temp_moods primary tms sec)"
  unfolding merge_temp_moods_def
proof (induction tms arbitrary: sec)
  case Nil
  then show ?case by simp
next
  case (Cons m tms)
  show ?case
  proof (cases "m \<notin> set sec \<and> m \<noteq> primary")
    case True
    then have "m \<notin> set sec" and "primary \<noteq> m"
      by blast+
    then have "distinct (sec @ [m])" and "primary \<notin> set (sec @ [m])"
      using Cons.prems by simp_all
    from Cons.IH [OF this] True show ?thesis by simp
  next
    case False
    then have "(if m \<notin> set sec \<and> m \<noteq> primary then sec @ [m] else sec) = sec"
      by simp
    with Cons.IH [OF Cons.prems] show ?thesis by simp
  qed
qed

lemma dict_get_in_set: "dict_get d k = Some v \<Longrightarrow> (k, v) \<in> set d"
  by (induction d) (auto split: if_splits)

lemma mood_rows_ok:
  "list_all (\<lambda>row. distinct (secondary_moods (snd row))
                 \<and> primary_mood (snd row) \<notin> set (secondary_moods (snd row))) WEATHER_MOOD_MAP"
  by (simp add: WEATHER_MOOD_MAP_def)

lemma mood_row_ok:
  assumes "dict_get WEATHER_MOOD_MAP c = Some i"
  shows "distinct (secondary_moods i) \<and> primary_mood i \<notin> set (secondary_moods i)"
proof -
  have "(c, i) \<in> set WEATHER_MOOD_MAP"
    using assms by (rule dict_get_in_set)
  with mood_rows_ok show ?thesis
    unfolding list_all_iff by (metis snd_conv)
qed

lemma fallback_row:
  "dict_get WEATHER_MOOD_MAP ''partly_cloudy'' =
     Some \<lparr>primary_mood = ''calm'', secondary_moods = [''reflective'', ''balanced''],
           description = ''mixed and transitional''\<rparr>"
  by (simp add: WEATHER_MOOD_MAP_def)

lemma mood_row_in_table: "\<exists>c. dict_get WEATHER_MOOD_MAP c = Some (mood_row w)"
  unfolding mood_row_def using fallback_row
  by (cases "dict_get WEATHER_MOOD_MAP (case condition w of None \<Rightarrow> ''partly_cloudy'' | Some c \<Rightarrow> c)")
     (simp_all, blast+)

lemma determine_moods_eq:
  "determine_moods w = Inr (primary_mood (mood_row w),
       merge_temp_moods (primary_mood (mood_row w))
         (case dict_get TEMP_MODIFIERS (case temperature_category w of None \<Rightarrow> ''mild'' | Some c \<Rightarrow> c) of
            None \<Rightarrow> [] | Some ti \<Rightarrow> moods ti)
         (secondary_moods (mood_row w)))"
  by (simp add: determine_moods_def fallback_row mood_row_def Let_def)

text \<open>
  Claim C3.  For every weather sample, whatever its condition and temperature category
  (in the tables or not, or absent), \<open>determine_moods\<close> returns a result and does not
  raise; the secondary moods have no duplicates and do not contain the primary mood.
\<close>

theorem determine_moods_secondary:
  "\<exists>p s. determine_moods w = Inr (p, s) \<and> distinct s \<and> p \<notin> set s"
proof -
  obtain c where "dict_get WEATHER_MOOD_MAP c = Some (mood_row w)"
    using mood_row_in_table by blast
  from mood_row_ok [OF this] show ?thesis
    unfolding determine_moods_eq using merge_temp_moods_inv by blast
qed


section \<open>Properties of the journal manager\<close>

lemma length_split_from:
  "length (split_from cur s) = (if cur = [] then word_starts False s else 1 + word_starts True s)"
  by (induction s arbitrary: cur) simp_all

lemma length_split: "length (split s) = token_count s"
  by (simp add: split_def token_count_def length_split_from)

lemma update_first_None:
  "(update_first now eid t es = None) = (eid \<notin> set (map entry_id es))"
  by (induction es) auto

lemma update_first_Some:
  "update_first now eid t es = Some es' \<Longrightarrow>
   \<exists>pre e post. es = pre @ e # post \<and> eid \<notin> set (map entry_id pre) \<and> entry_id e = eid
     \<and> es' = pre @ e\<lparr>entry_text := t, word_count := Some (int (length (split t))),
                       updated_at := Some now\<rparr> # post"
proof (induction es arbitrary: es')
  case Nil
  then show ?case by simp
next
  case (Cons a es)
  show ?case
  proof (cases "entry_id a = eid")
    case True
    with Cons.prems have "es' = a\<lparr>entry_text := t, word_count := Some (int (length (split t))),
                       updated_at := Some now\<rparr> # es"
      by simp
    with True show ?thesis
      by (intro exI [of _ "[]"] exI [of _ a] exI [of _ es]) simp
  next
    case False
    with Cons.prems obtain r where r: "update_first now eid t es = Some r" and es': "es' = a # r"
      by auto
    from Cons.IH [OF r] obtain pre e post where
      "es = pre @ e # post" "eid \<notin> set (map entry_id pre)" "entry_id e = eid"
      "r = pre @ e\<lparr>entry_text := t, word_count := Some (int (length (split t))),
                       updated_at := Some now\<rparr> # post"
      by blast
    with False es' show ?thesis
      by (intro exI [of _ "a # pre"] exI [of _ e] exI [of _ post]) auto
  qed
qed

text \<open>
  Claim C8.  \<open>update_entry\<close> returns \<open>True\<close> exactly when an entry with the id is
  stored.  Then the stored list afterwards is the list before with the first entry of
  that id changed in its text, its word count (the whitespace-delimited token count of the
  new text) and its \<open>updated_at\<close> only: all its other fields, and all entries before
  and after it, are as they were.  When it returns \<open>False\<close> the stored list is
  unchanged.
\<close>

theorem update_entry_frame:
  "fst (update_entry now entries eid t) = (eid \<in> set (map entry_id entries))
   \<and> (eid \<notin> set (map entry_id entries) \<longrightarrow> snd (update_entry now entries eid t) = entries)
   \<and> (eid \<in> set (map entry_id entries) \<longrightarrow>
        (\<exists>pre e post. entries = pre @ e # post \<and> eid \<notin> set (map entry_id pre) \<and> entry_id e = eid
           \<and> snd (update_entry now entries eid t) =
               pre @ e\<lparr>entry_text := t, word_count := Some (int (token_count t)),
                        updated_at := Some now\<rparr> # post))"
proof (cases "update_first now eid t entries")
  case None
  then show ?thesis
    using update_first_None [of now eid t entries] by (simp add: update_entry_def)
next
  case (Some es')
  then have "eid \<in> set (map entry_id entries)"
    using update_first_None [of now eid t entries] by simp
  with Some update_first_Some [OF Some] show ?thesis
    by (simp add: update_entry_def length_split)
qed

text \<open>
  In the example journal the entry of 2 March exists and is updated to a text of two
  words that a no-break space separates; no entry has the id of 9 March, and the journal
  stays as it is.
\<close>

theorem update_entry_frame_witness:
  "''2024-03-02T09:00:00'' \<in> set (map entry_id example_journal)
   \<and> ''2024-03-09T09:00:00'' \<notin> set (map entry_id example_journal)
   \<and> fst (update_entry ''2024-03-05T10:00:00'' example_journal ''2024-03-02T09:00:00'' two_words)
   \<and> \<not> fst (update_entry ''2024-03-05T10:00:00'' example_journal ''2024-03-09T09:00:00'' two_words)
   \<and> snd (update_entry ''2024-03-05T10:00:00'' example_journal ''2024-03-09T09:00:00'' two_words)
       = example_journal
   \<and> (\<exists>pre e post. example_journal = pre @ e # post
         \<and> ''2024-03-02T09:00:00'' \<notin> set (map entry_id pre) \<and> entry_id e = ''2024-03-02T09:00:00''
         \<and> snd (update_entry ''2024-03-05T10:00:00'' example_journal ''2024-03-02T09:00:00'' two_words) =
               pre @ e\<lparr>entry_text := two_words, word_count := Some (int (token_count two_words)),
                        updated_at := Some ''2024-03-05T10:00:00''\<rparr> # post)
   \<and> token_count two_words = 2"
proof -
  have ids: "map entry_id example_journal =
      [''2024-03-03T09:00:00'', ''2024-03-02T09:00:00'', ''2024-03-01T09:00:00'']"
    by (simp add: example_journal_def create_entry_def Let_def)
  have present: "''2024-03-02T09:00:00'' \<in> set (map entry_id example_journal)"
    and absent: "''2024-03-09T09:00:00'' \<notin> set (map entry_id example_journal)"
    unfolding ids by simp_all
  have tc: "token_count two_words = 2"
    by (simp add: token_count_def two_words_def is_space_def)
  show ?thesis
    using update_entry_frame [of "''2024-03-05T10:00:00''" example_journal "''2024-03-02T09:00:00''" two_words]
      update_entry_frame [of "''2024-03-05T10:00:00''" example_journal "''2024-03-09T09:00:00''" two_words]
      present absent tc
    by simp
qed

text \<open>
  Claim C9.  \<open>get_all_entries\<close> with the limit 0 returns the whole list, since the limit
  is applied only when it is truthy; with a positive limit \<open>n\<close> it returns the first
  \<open>n\<close> entries (all of them when there are fewer); without a limit it returns all entries
  in their stored order.
\<close>

theorem get_all_entries_limit:
  "get_all_entries entries (Some 0) = entries
   \<and> (0 < n \<longrightarrow> get_all_entries entries (Some n) = take (nat n) entries)
   \<and> get_all_entries entries None = entries"
  by (simp add: get_all_entries_def)

text \<open>The limits 2 and 5 on the example journal of three entries.\<close>

theorem get_all_entries_limit_witness:
  "(0::int) < 2 \<and> (0::int) < 5
   \<and> get_all_entries example_journal (Some 2) = take 2 example_journal
   \<and> length (get_all_entries example_journal (Some 2)) = 2
   \<and> get_all_entries example_journal (Some 5) = example_journal
   \<and> get_all_entries example_journal (Some 0) = example_journal"
proof -
  have len: "length example_journal = 3"
    by (simp add: example_journal_def create_entry_def Let_def)
  show ?thesis
    using get_all_entries_limit [of example_journal 2] get_all_entries_limit [of example_journal 5] len
    by simp
qed

text \<open>
  Claim C6.  The statistics of an empty entry collection are the zero snapshot, returned
  without an error: no entries, no words, average 0, no most common mood or weather
  (\<open>None\<close>), both streaks 0.
\<close>

theorem get_statistics_empty:
  "get_statistics round1 today [] =
     [(''total_entries'', VInt 0),
      (''total_words'', VInt 0),
      (''avg_words_per_entry'', VInt 0),
      (''most_common_mood'', VNone),
      (''most_common_weather'', VNone),
      (''longest_streak'', VInt 0),
      (''current_streak'', VInt 0)]"
  by (simp add: get_statistics_def)

text \<open>
  Claim C10.  The snapshot of a non-empty collection has the keys \<open>mood_distribution\<close>
  and \<open>weather_distribution\<close>, holding the two frequency dictionaries; the snapshot of the
  empty collection has neither key.
\<close>

theorem get_statistics_distribution_keys:
  "dict_get (get_statistics round1 today (e # es)) ''mood_distribution''
     = Some (VDict (mood_counts_of (e # es)))
   \<and> dict_get (get_statistics round1 today (e # es)) ''weather_distribution''
     = Some (VDict (weather_counts_of (e # es)))
   \<and> dict_get (get_statistics round1 today []) ''mood_distribution'' = None
   \<and> dict_get (get_statistics round1 today []) ''weather_distribution'' = None"
  by (simp add: get_statistics_def Let_def)

lemma sort_remdups_three:
  fixes D :: int
  assumes "set xs = {D - 3, D - 2, D - 1}"
  shows "sort (remdups xs) = [D - 3, D - 2, D - 1]"
proof -
  have "sorted (sort (remdups xs))" "distinct (sort (remdups xs))"
    "set (sort (remdups xs)) = set [D - 3, D - 2, D - 1]"
    using assms by simp_all
  moreover have "sorted [D - 3, D - 2, D - 1]" "distinct [D - 3, D - 2, D - 1]"
    by simp_all
  ultimately show ?thesis
    by (metis sorted_distinct_set_unique)
qed

lemma current_streak_absent:
  assumes "today \<notin> set ds"
  shows "calculate_current_streak today ds = 0"
proof (cases "rev ds")
  case Nil
  then show ?thesis by (simp add: calculate_current_streak_def)
next
  case (Cons d rest)
  then have "d \<in> set ds"
    by (metis list.set_intros(1) set_rev)
  with assms have "d \<noteq> today" by blast
  with Cons show ?thesis
    by (simp add: calculate_current_streak_def)
qed

lemma streak_inv_next:
  assumes inv: "streak_inv P prev mx cur" and d: "prev < d" and step: "d - prev = 1"
  shows "streak_inv (insert d P) d (max mx (cur + 1)) (cur + 1)"
proof -
  from inv have a: "prev \<in> P" "\<forall>y\<in>P. y \<le> prev" "1 \<le> cur" "cur \<le> mx"
    "{prev - cur + 1 .. prev} \<subseteq> P" "prev - cur \<notin> P"
    and ex: "\<exists>a. {a ..< a + mx} \<subseteq> P"
    and bound: "\<forall>a n. {a ..< a + n} \<subseteq> P \<longrightarrow> n \<le> mx"
    unfolding streak_inv_def by blast+
  have dP: "d \<notin> P" using a(2) d by force
  have r1: "{d - (cur + 1) + 1 .. d} \<subseteq> insert d P"
  proof
    fix y assume "y \<in> {d - (cur + 1) + 1 .. d}"
    then have "y = d \<or> y \<in> {prev - cur + 1 .. prev}" using step by auto
    with a(5) show "y \<in> insert d P" by blast
  qed
  have e: "d - (cur + 1) = prev - cur"
    using step by arith
  have "prev - cur \<noteq> d"
    using a(3) d by arith
  then have r2: "d - (cur + 1) \<notin> insert d P"
    unfolding e using a(6) by simp
  have ex': "\<exists>b. {b ..< b + max mx (cur + 1)} \<subseteq> insert d P"
  proof (cases "mx \<le> cur + 1")
    case True
    have "{d - (cur + 1) + 1 ..< d - (cur + 1) + 1 + (cur + 1)} \<subseteq> insert d P"
      using r1 by auto
    with True show ?thesis by (metis max.absorb2)
  next
    case False
    with ex show ?thesis by (auto simp add: max_def)
  qed
  have bound': "n \<le> max mx (cur + 1)" if run: "{b ..< b + n} \<subseteq> insert d P" for b n
  proof (cases "d \<in> {b ..< b + n}")
    case False
    with run have "{b ..< b + n} \<subseteq> P" by blast
    with bound have "n \<le> mx" by blast
    then show ?thesis by simp
  next
    case True
    have top: "b + n - 1 \<le> d"
    proof (rule ccontr)
      assume "\<not> b + n - 1 \<le> d"
      with True have "d + 1 \<in> {b ..< b + n}" by auto
      with run have "d + 1 \<in> P" by auto
      with a(2) d show False by force
    qed
    show ?thesis
    proof (rule ccontr)
      assume "\<not> n \<le> max mx (cur + 1)"
      then have "cur + 1 < n" by simp
      with True top a(3) have "d - (cur + 1) \<in> {b ..< b + n}" by auto
      with run r2 show False by blast
    qed
  qed
  show ?thesis
    unfolding streak_inv_def using a(3,4) r1 r2 ex' bound' a(2) d by auto
qed

lemma streak_inv_gap:
  assumes inv: "streak_inv P prev mx cur" and d: "prev < d" and step: "d - prev \<noteq> 1"
  shows "streak_inv (insert d P) d mx 1"
proof -
  from inv have a: "prev \<in> P" "\<forall>y\<in>P. y \<le> prev" "1 \<le> cur" "cur \<le> mx"
    and ex: "\<exists>a. {a ..< a + mx} \<subseteq> P"
    and bound: "\<forall>a n. {a ..< a + n} \<subseteq> P \<longrightarrow> n \<le> mx"
    unfolding streak_inv_def by blast+
  have r2: "d - 1 \<notin> insert d P"
    using a(2) d step by force
  have ex': "\<exists>b. {b ..< b + mx} \<subseteq> insert d P"
    using ex by blast
  have bound': "n \<le> mx" if run: "{b ..< b + n} \<subseteq> insert d P" for b n
  proof (cases "d \<in> {b ..< b + n}")
    case False
    with run have "{b ..< b + n} \<subseteq> P" by blast
    with bound show ?thesis by blast
  next
    case True
    have top: "b + n - 1 \<le> d"
    proof (rule ccontr)
      assume "\<not> b + n - 1 \<le> d"
      with True have "d + 1 \<in> {b ..< b + n}" by auto
      with run have "d + 1 \<in> P" by auto
      with a(2) d show False by force
    qed
    show ?thesis
    proof (rule ccontr)
      assume "\<not> n \<le> mx"
      then have "1 < n" using a(3,4) by simp
      with True top have "d - 1 \<in> {b ..< b + n}" by auto
      with run r2 show False by blast
    qed
  qed
  show ?thesis
    unfolding streak_inv_def using a(3,4) r2 ex' bound' a(2) d by auto
qed

lemma longest_from_spec:
  assumes "streak_inv P prev mx cur" and "sorted_wrt (<) (prev # rest)"
  shows "(\<exists>a. {a ..< a + longest_from prev mx cur rest} \<subseteq> P \<union> set rest)
       \<and> (\<forall>a n. {a ..< a + n} \<subseteq> P \<union> set rest \<longrightarrow> n \<le> longest_from prev mx cur rest)
       \<and> 1 \<le> longest_from prev mx cur rest"
  using assms
proof (induction rest arbitrary: P prev mx cur)
  case Nil
  then show ?case
    unfolding streak_inv_def by auto
next
  case (Cons d rest)
  have d: "prev < d" and sw: "sorted_wrt (<) (d # rest)"
    using Cons.prems(2) by auto
  have un: "P \<union> set (d # rest) = insert d P \<union> set rest"
    by auto
  show ?case
  proof (cases "d - prev = 1")
    case True
    have "streak_inv (insert d P) d (max mx (cur + 1)) (cur + 1)"
      using Cons.prems(1) d True by (rule streak_inv_next)
    from Cons.IH [OF this sw] True show ?thesis
      unfolding un by simp
  next
    case False
    have "streak_inv (insert d P) d mx 1"
      using Cons.prems(1) d False by (rule streak_inv_gap)
    from Cons.IH [OF this sw] False show ?thesis
      unfolding un by simp
  qed
qed

lemma longest_streak_spec:
  assumes "sorted_wrt (<) ds"
  shows "(ds \<noteq> [] \<longrightarrow> (\<exists>a. {a ..< a + calculate_longest_streak ds} \<subseteq> set ds)
            \<and> 1 \<le> calculate_longest_streak ds)
       \<and> (\<forall>a n. {a ..< a + n} \<subseteq> set ds \<longrightarrow> n \<le> calculate_longest_streak ds)
       \<and> (ds = [] \<longrightarrow> calculate_longest_streak ds = 0)"
proof (cases ds)
  case Nil
  then show ?thesis by auto
next
  case (Cons d rest)
  have "streak_inv {d} d 1 1"
  proof -
    have "n \<le> 1" if "{a ..< a + n} \<subseteq> {d}" for a n :: int
    proof (rule ccontr)
      assume "\<not> n \<le> 1"
      then have "a \<in> {a ..< a + n}" "a + 1 \<in> {a ..< a + n}" by auto
      with that have "a \<in> {d}" "a + 1 \<in> {d}" by blast+
      then show False by simp
    qed
    moreover have "{d ..< d + 1} \<subseteq> {d}" by auto
    ultimately show ?thesis
      unfolding streak_inv_def by auto
  qed
  from longest_from_spec [OF this, of rest] assms Cons show ?thesis
    by auto
qed

text \<open>
  Claim C5.  When the distinct entry dates are exactly the three days before today, the
  statistics give the current streak 0 and the longest streak 3.  Whenever today is not
  among the entry dates the current streak is 0.  The longest streak of a non-empty
  journal is the length of a longest run of calendar-consecutive days among its distinct
  entry dates: some run of that many consecutive days lies within the dates, and no run
  of consecutive days within the dates is longer.
\<close>

theorem streak_three_days_before_today:
  "(set (List.map_filter date entries) = {today - 3, today - 2, today - 1} \<longrightarrow>
      dict_get (get_statistics round1 today entries) ''current_streak'' = Some (VInt 0)
    \<and> dict_get (get_statistics round1 today entries) ''longest_streak'' = Some (VInt 3))
   \<and> (today \<notin> set (List.map_filter date entries) \<longrightarrow>
      dict_get (get_statistics round1 today entries) ''current_streak'' = Some (VInt 0))
   \<and> (entries \<noteq> [] \<longrightarrow>
      (\<exists>L. dict_get (get_statistics round1 today entries) ''longest_streak'' = Some (VInt L)
         \<and> (\<forall>a n. {a ..< a + n} \<subseteq> set (List.map_filter date entries) \<longrightarrow> n \<le> L)
         \<and> (set (List.map_filter date entries) \<noteq> {} \<longrightarrow>
              1 \<le> L \<and> (\<exists>a. {a ..< a + L} \<subseteq> set (List.map_filter date entries)))
         \<and> (set (List.map_filter date entries) = {} \<longrightarrow> L = 0)))"
proof (intro conjI impI)
  assume a: "set (List.map_filter date entries) = {today - 3, today - 2, today - 1}"
  then have ne: "entries \<noteq> []"
    by (auto simp add: List.map_filter_def)
  have ds: "entry_dates entries = [today - 3, today - 2, today - 1]"
    unfolding entry_dates_def using a by (rule sort_remdups_three)
  show "dict_get (get_statistics round1 today entries) ''current_streak'' = Some (VInt 0)"
    using ne by (simp add: get_statistics_def Let_def ds calculate_current_streak_def)
  show "dict_get (get_statistics round1 today entries) ''longest_streak'' = Some (VInt 3)"
    using ne by (simp add: get_statistics_def Let_def ds)
next
  assume "today \<notin> set (List.map_filter date entries)"
  then have "today \<notin> set (entry_dates entries)"
    by (simp add: entry_dates_def)
  then have "calculate_current_streak today (entry_dates entries) = 0"
    by (rule current_streak_absent)
  then show "dict_get (get_statistics round1 today entries) ''current_streak'' = Some (VInt 0)"
    by (simp add: get_statistics_def Let_def)
next
  assume ne: "entries \<noteq> []"
  let ?ds = "entry_dates entries"
  have val: "dict_get (get_statistics round1 today entries) ''longest_streak''
      = Some (VInt (calculate_longest_streak ?ds))"
    using ne by (simp add: get_statistics_def Let_def)
  have "sorted_wrt (<) ?ds"
    by (simp add: entry_dates_def strict_sorted_iff)
  from longest_streak_spec [OF this]
  have "(\<forall>a n. {a ..< a + n} \<subseteq> set ?ds \<longrightarrow> n \<le> calculate_longest_streak ?ds)
      \<and> (set ?ds \<noteq> {} \<longrightarrow> 1 \<le> calculate_longest_streak ?ds
            \<and> (\<exists>a. {a ..< a + calculate_longest_streak ?ds} \<subseteq> set ?ds))
      \<and> (set ?ds = {} \<longrightarrow> calculate_longest_streak ?ds = 0)"
    by simp
  moreover have "set ?ds = set (List.map_filter date entries)"
    by (simp add: entry_dates_def)
  ultimately show "\<exists>L. dict_get (get_statistics round1 today entries) ''longest_streak'' = Some (VInt L)
         \<and> (\<forall>a n. {a ..< a + n} \<subseteq> set (List.map_filter date entries) \<longrightarrow> n \<le> L)
         \<and> (set (List.map_filter date entries) \<noteq> {} \<longrightarrow>
              1 \<le> L \<and> (\<exists>a. {a ..< a + L} \<subseteq> set (List.map_filter date entries)))
         \<and> (set (List.map_filter date entries) = {} \<longrightarrow> L = 0)"
    using val by (intro exI [of _ "calculate_longest_streak ?ds"]) simp
qed

text \<open>
  The example journal has entries on 1, 2 and 3 March; seen on 4 March (day 738949)
  its current streak is 0 and its longest streak is 3, the run of the three days from
  1 March.
\<close>

theorem streak_three_days_before_today_witness:
  "set (List.map_filter date example_journal) = {738949 - 3, 738949 - 2, 738949 - 1}
   \<and> 738949 \<notin> set (List.map_filter date example_journal)
   \<and> example_journal \<noteq> []
   \<and> set (List.map_filter date example_journal) \<noteq> {}
   \<and> dict_get (get_statistics (\<lambda>r. r) 738949 example_journal) ''current_streak'' = Some (VInt 0)
   \<and> dict_get (get_statistics (\<lambda>r. r) 738949 example_journal) ''longest_streak'' = Some (VInt 3)
   \<and> {738946 ..< 738946 + 3} \<subseteq> set (List.map_filter date example_journal)"
proof -
  have dates: "List.map_filter date example_journal = [738948, 738947, 738946]"
    by (simp add: example_journal_def create_entry_def Let_def List.map_filter_def)
  have h1: "set (List.map_filter date example_journal) = {738949 - 3, 738949 - 2, 738949 - 1}"
    unfolding dates by auto
  have h2: "738949 \<notin> set (List.map_filter date example_journal)"
    unfolding dates by simp
  have h3: "example_journal \<noteq> []"
    using dates by auto
  have h4: "set (List.map_filter date example_journal) \<noteq> {}"
    unfolding dates by simp
  note inst = streak_three_days_before_today [where entries = example_journal and today = 738949 and ?round1.0 = "\<lambda>r. r"]
  from inst h1 have v: "dict_get (get_statistics (\<lambda>r. r) 738949 example_journal) ''current_streak'' = Some (VInt 0)"
    "dict_get (get_statistics (\<lambda>r. r) 738949 example_journal) ''longest_streak'' = Some (VInt 3)"
    by blast+
  have run: "{738946 ..< 738946 + 3} \<subseteq> set (List.map_filter date example_journal)"
    unfolding dates by auto
  from h1 h2 h3 h4 v run show ?thesis by blast
qed


section \<open>Properties of the correlation grid\<close>

lemma dict_get_put: "dict_get (dict_put k v d) k' = (if k = k' then Some v else dict_get d k')"
  by (induction d) auto

lemma cnt_count_up: "cnt (count_up k d) k' = cnt d k' + (if k = k' then 1 else 0)"
  by (simp add: cnt_def count_up_def dict_get_put)

lemma cnt_fold_count_up:
  "cnt (fold count_up ks d) k = cnt d k + int (length (filter (\<lambda>k'. k' = k) ks))"
  by (induction ks arbitrary: d) (simp_all add: cnt_count_up)

lemma pairs_as_fold:
  "weather_mood_pairs_of entries = fold count_up (map key_of (tag_pairs entries)) []"
proof -
  have step: "fold (\<lambda>m. count_up (pair_key (weather_key e) m)) (tags_of e)
      = fold count_up (map key_of (map (\<lambda>m. (weather_key e, m)) (tags_of e)))" for e
    by (simp add: fold_map comp_def key_of_def)
  have "fold count_up (map key_of (concat (map (\<lambda>e. map (\<lambda>m. (weather_key e, m)) (tags_of e)) es))) d
      = fold (\<lambda>e d. fold (\<lambda>m. count_up (pair_key (weather_key e) m)) (tags_of e) d) es d" for es d
    by (induction es arbitrary: d) (simp_all add: step)
  then show ?thesis
    by (simp add: weather_mood_pairs_of_def tag_pairs_def)
qed

lemma cell_count:
  "cell (weather_mood_pairs_of entries) w m =
     int (length (filter (\<lambda>p. key_of p = pair_key w m) (tag_pairs entries)))"
proof -
  have "cell (weather_mood_pairs_of entries) w m = cnt (weather_mood_pairs_of entries) (pair_key w m)"
    by (simp add: cell_def cnt_def)
  also have "\<dots> = int (length (filter (\<lambda>k'. k' = pair_key w m) (map key_of (tag_pairs entries))))"
    by (simp add: pairs_as_fold cnt_fold_count_up) (simp add: cnt_def)
  also have "\<dots> = int (length (filter (\<lambda>p. key_of p = pair_key w m) (tag_pairs entries)))"
    by (simp add: filter_map comp_def)
  finally show ?thesis .
qed

lemma tag_pairs_domain:
  "p \<in> set (tag_pairs entries) \<Longrightarrow>
   fst p \<in> set (map weather_key entries) \<and> snd p \<in> set (observed_moods entries)"
  by (auto simp add: tag_pairs_def observed_moods_def)

lemma keys_inj:
  assumes "keys_unambiguous entries"
  shows "inj_on key_of (set (map weather_key entries) \<times> set (observed_moods entries))"
proof -
  have "inj_on key_of (set (List.product (remdups (map weather_key entries)) (observed_moods entries)))"
    using assms unfolding keys_unambiguous_def by (simp add: distinct_map)
  then show ?thesis by simp
qed

lemma cell_occurrences:
  assumes "keys_unambiguous entries"
    and "w \<in> set (map weather_key entries)" and "m \<in> set (observed_moods entries)"
  shows "cell (weather_mood_pairs_of entries) w m = occurrences entries w m"
proof -
  have "(key_of p = pair_key w m) = (p = (w, m))" if "p \<in> set (tag_pairs entries)" for p
  proof -
    have "p \<in> set (map weather_key entries) \<times> set (observed_moods entries)"
      using tag_pairs_domain [OF that] by (cases p) simp
    moreover have "(w, m) \<in> set (map weather_key entries) \<times> set (observed_moods entries)"
      using assms(2,3) by simp
    moreover have "pair_key w m = key_of (w, m)"
      by (simp add: key_of_def)
    ultimately show ?thesis
      using keys_inj [OF assms(1)] by (metis inj_on_eq_iff)
  qed
  then have "filter (\<lambda>p. key_of p = pair_key w m) (tag_pairs entries)
      = filter (\<lambda>p. p = (w, m)) (tag_pairs entries)"
    by (intro filter_cong) simp_all
  then show ?thesis
    by (simp add: cell_count occurrences_def)
qed

lemma indicator_sum:
  "distinct xs \<Longrightarrow>
   (\<Sum>m\<leftarrow>xs. if m = a then (1::int) else 0) = (if a \<in> set xs then 1 else 0)"
  by (induction xs) auto

lemma sum_over_cols:
  assumes "distinct cols" and "\<forall>p\<in>set ps. snd p \<in> set cols"
  shows "(\<Sum>m\<leftarrow>cols. int (length (filter (\<lambda>p. p = (w, m)) ps)))
       = int (length (filter (\<lambda>p. fst p = w) ps))"
  using assms(2)
proof (induction ps)
  case Nil
  then show ?case by simp
next
  case (Cons p ps)
  have ind: "(\<Sum>m\<leftarrow>cols. if p = (w, m) then (1::int) else 0) = (if fst p = w then 1 else 0)"
  proof -
    have "(\<lambda>m. if p = (w, m) then (1::int) else 0)
        = (\<lambda>m. if fst p = w then (if m = snd p then 1 else 0) else 0)"
      by (cases p) auto
    then have "(\<Sum>m\<leftarrow>cols. if p = (w, m) then (1::int) else 0)
        = (\<Sum>m\<leftarrow>cols. if fst p = w then (if m = snd p then 1 else 0) else 0)"
      by simp
    also have "\<dots> = (if fst p = w then (\<Sum>m\<leftarrow>cols. if m = snd p then 1 else 0) else 0)"
      by simp
    also have "\<dots> = (if fst p = w then 1 else 0)"
      using Cons.prems by (simp add: indicator_sum [OF assms(1)])
    finally show ?thesis .
  qed
  have "(\<Sum>m\<leftarrow>cols. int (length (filter (\<lambda>q. q = (w, m)) (p # ps))))
      = (\<Sum>m\<leftarrow>cols. (if p = (w, m) then 1 else 0) + int (length (filter (\<lambda>q. q = (w, m)) ps)))"
    by (intro arg_cong [where f = sum_list] map_cong) simp_all
  also have "\<dots> = (\<Sum>m\<leftarrow>cols. if p = (w, m) then 1 else 0)
      + (\<Sum>m\<leftarrow>cols. int (length (filter (\<lambda>q. q = (w, m)) ps)))"
    by (simp add: sum_list_addf)
  also have "\<dots> = (if fst p = w then 1 else 0) + int (length (filter (\<lambda>q. fst q = w) ps))"
    using Cons ind by simp
  finally show ?case by simp
qed

lemma sum_over_rows:
  assumes "distinct rs"
  shows "(\<Sum>w\<leftarrow>rs. int (length (filter (\<lambda>p. fst p = w) ps)))
       = int (length (filter (\<lambda>p. fst p \<in> set rs) ps))"
proof (induction ps)
  case Nil
  then show ?case by simp
next
  case (Cons p ps)
  have "(\<Sum>w\<leftarrow>rs. int (length (filter (\<lambda>q. fst q = w) (p # ps))))
      = (\<Sum>w\<leftarrow>rs. (if w = fst p then 1 else 0) + int (length (filter (\<lambda>q. fst q = w) ps)))"
    by (intro arg_cong [where f = sum_list] map_cong) auto
  also have "\<dots> = (\<Sum>w\<leftarrow>rs. if w = fst p then 1 else 0)
      + (\<Sum>w\<leftarrow>rs. int (length (filter (\<lambda>q. fst q = w) ps)))"
    by (simp add: sum_list_addf)
  also have "\<dots> = (if fst p \<in> set rs then 1 else 0) + int (length (filter (\<lambda>q. fst q \<in> set rs) ps))"
    using Cons by (simp add: indicator_sum [OF assms])
  finally show ?case by simp
qed

lemma sum_list_concat_int: "sum_list (concat xss) = (\<Sum>xs\<leftarrow>xss. sum_list (xs :: int list))"
  by (induction xss) simp_all

lemma set_map_filter: "set (List.map_filter f xs) = {y. \<exists>x\<in>set xs. f x = Some y}"
  by (induction xs) (auto split: option.splits)

lemma observed_weathers_set:
  "set (observed_weathers entries) =
     {c. c \<noteq> [] \<and> (\<exists>e\<in>set entries. entry_condition e = Some c)}"
proof -
  have g: "((case entry_condition e of None \<Rightarrow> None
             | Some c \<Rightarrow> if c \<noteq> [] then Some c else None) = Some y)
         = (y \<noteq> [] \<and> entry_condition e = Some y)" for e y
    by (cases "entry_condition e") auto
  show ?thesis
    unfolding observed_weathers_def by (simp add: set_map_filter g)
qed

lemma observed_weathers_keys:
  "set (observed_weathers entries) \<subseteq> set (map weather_key entries)"
proof
  fix c
  assume "c \<in> set (observed_weathers entries)"
  then obtain e where "e \<in> set entries" "entry_condition e = Some c"
    unfolding observed_weathers_set by blast
  then have "weather_key e = c" "e \<in> set entries"
    by (simp_all add: weather_key_def entry_condition_def split: pykey.splits)
  then show "c \<in> set (map weather_key entries)"
    by force
qed

lemma observed_moods_set:
  "set (observed_moods entries) = (\<Union>e\<in>set entries. set (tags_of e))"
  by (simp add: observed_moods_def)

lemma grid_cells:
  assumes "keys_unambiguous entries"
  shows "map (\<lambda>w. map (\<lambda>m. cell (weather_mood_pairs_of entries) w m) (observed_moods entries))
           (observed_weathers entries)
       = map (\<lambda>w. map (\<lambda>m. occurrences entries w m) (observed_moods entries))
           (observed_weathers entries)"
  using observed_weathers_keys [of entries]
  by (intro map_cong refl cell_occurrences [OF assms]) auto

lemma grid_total:
  "sum_list (concat (map (\<lambda>w. map (\<lambda>m. occurrences entries w m) (observed_moods entries))
           (observed_weathers entries)))
   = int (length (filter (\<lambda>p. fst p \<in> set (observed_weathers entries)) (tag_pairs entries)))"
proof -
  have d1: "distinct (observed_moods entries)" and d2: "distinct (observed_weathers entries)"
    by (simp_all add: observed_moods_def observed_weathers_def)
  have dom: "\<forall>p\<in>set (tag_pairs entries). snd p \<in> set (observed_moods entries)"
    using tag_pairs_domain by blast
  have "sum_list (concat (map (\<lambda>w. map (\<lambda>m. occurrences entries w m) (observed_moods entries))
           (observed_weathers entries)))
      = (\<Sum>w\<leftarrow>observed_weathers entries. \<Sum>m\<leftarrow>observed_moods entries. occurrences entries w m)"
    by (simp add: sum_list_concat_int comp_def)
  also have "\<dots> = (\<Sum>w\<leftarrow>observed_weathers entries.
        int (length (filter (\<lambda>p. fst p = w) (tag_pairs entries))))"
    unfolding occurrences_def by (simp add: sum_over_cols [OF d1 dom])
  also have "\<dots> = int (length (filter (\<lambda>p. fst p \<in> set (observed_weathers entries)) (tag_pairs entries)))"
    by (rule sum_over_rows [OF d2])
  finally show ?thesis .
qed

lemma tagged_entry_simps:
  "tags_of (tagged_entry c tags) = tags"
  "entry_condition (tagged_entry c tags) = Some c"
  "weather_key (tagged_entry c tags) = c"
  by (simp_all add: tagged_entry_def create_entry_def example_weather_def tags_of_def
        weather_key_def entry_condition_def Let_def)

lemma grid_example_value:
  "create_weather_mood_correlation grid_example =
     Some \<lparr>moods_x = [''cozy'', ''energetic'', ''reflective''],
           weathers_y = [''rainy'', ''sunny''],
           matrix_z = [[1, 0, 1], [0, 1, 0]]\<rparr>"
  by (simp add: create_weather_mood_correlation_def grid_example_def observed_moods_def
        observed_weathers_def weather_mood_pairs_of_def tagged_entry_simps cell_def pair_key_def
        count_up_def List.map_filter_def Let_def)

lemma length_filter_distinct:
  "distinct xs \<Longrightarrow> length (filter (\<lambda>y. y = a) xs) = (if a \<in> set xs then 1 else 0)"
  by (induction xs) auto

lemma occurrences_entries:
  assumes "list_all (\<lambda>e. distinct (tags_of e)) entries"
  shows "occurrences entries w m =
     int (length (filter (\<lambda>e. weather_key e = w \<and> m \<in> set (tags_of e)) entries))"
  using assms
proof (induction entries)
  case Nil
  then show ?case by (simp add: occurrences_def tag_pairs_def)
next
  case (Cons e es)
  have "length (filter (\<lambda>p. p = (w, m)) (map (\<lambda>t. (weather_key e, t)) (tags_of e)))
      = (if weather_key e = w then length (filter (\<lambda>t. t = m) (tags_of e)) else 0)"
    by (simp add: filter_map comp_def)
  also have "\<dots> = (if weather_key e = w \<and> m \<in> set (tags_of e) then 1 else 0)"
    using Cons.prems by (simp add: length_filter_distinct)
  finally have hd: "length (filter (\<lambda>p. p = (w, m)) (map (\<lambda>t. (weather_key e, t)) (tags_of e)))
      = (if weather_key e = w \<and> m \<in> set (tags_of e) then 1 else 0)" .
  have "occurrences (e # es) w m =
      int (length (filter (\<lambda>p. p = (w, m)) (map (\<lambda>t. (weather_key e, t)) (tags_of e))))
      + occurrences es w m"
    by (simp add: occurrences_def tag_pairs_def)
  with hd Cons show ?case by simp
qed

text \<open>
  Claim C7, as the code has it.  An empty journal has no grid.  The grid of a non-empty
  journal has as rows the distinct non-empty conditions of its entries and as columns the
  distinct mood tags of its entries, both sorted lexicographically.  When the keys
  are unambiguous, each cell is the number of occurrences of the mood tag of its column in
  the entries that the grid files under the condition of its row (the entries of that
  condition; an entry without the condition key is filed under \<open>unknown\<close>, an entry
  whose condition is \<open>None\<close> under the text \<open>None\<close>), and the cells sum to the number of
  tag occurrences in the entries filed under a row.  When no entry lists a tag twice, the
  number of occurrences is the number of such entries that carry the tag.  For the two
  entries rainy with reflective and cozy, and sunny with energetic, the cells
  (rainy, reflective), (rainy, cozy) and (sunny, energetic) are 1, the others 0, and the
  total is 3.
\<close>

theorem correlation_grid:
  "create_weather_mood_correlation [] = None
   \<and> (entries \<noteq> [] \<longrightarrow>
       (\<exists>h. create_weather_mood_correlation entries = Some h
          \<and> sorted (weathers_y h) \<and> distinct (weathers_y h)
          \<and> set (weathers_y h) = {c. c \<noteq> [] \<and> (\<exists>e\<in>set entries. entry_condition e = Some c)}
          \<and> sorted (moods_x h) \<and> distinct (moods_x h)
          \<and> set (moods_x h) = (\<Union>e\<in>set entries. set (tags_of e))
          \<and> (keys_unambiguous entries \<longrightarrow>
                matrix_z h = map (\<lambda>w. map (\<lambda>m. occurrences entries w m) (moods_x h)) (weathers_y h)
              \<and> sum_list (concat (matrix_z h)) =
                  int (length (filter (\<lambda>p. fst p \<in> set (weathers_y h)) (tag_pairs entries))))))
   \<and> (list_all (\<lambda>e. distinct (tags_of e)) entries \<longrightarrow>
        occurrences entries w m =
          int (length (filter (\<lambda>e. weather_key e = w \<and> m \<in> set (tags_of e)) entries)))
   \<and> create_weather_mood_correlation grid_example =
       Some \<lparr>moods_x = [''cozy'', ''energetic'', ''reflective''],
             weathers_y = [''rainy'', ''sunny''],
             matrix_z = [[1, 0, 1], [0, 1, 0]]\<rparr>
   \<and> sum_list (concat [[1, 0, 1], [0, 1, (0::int)]]) = 3"
proof (intro conjI impI)
  show "create_weather_mood_correlation [] = None"
    by (simp add: create_weather_mood_correlation_def)
next
  assume ne: "entries \<noteq> []"
  let ?h = "\<lparr>moods_x = observed_moods entries, weathers_y = observed_weathers entries,
     matrix_z = map (\<lambda>w. map (\<lambda>m. cell (weather_mood_pairs_of entries) w m) (observed_moods entries))
        (observed_weathers entries)\<rparr>"
  have h: "create_weather_mood_correlation entries = Some ?h"
    using ne by (simp add: create_weather_mood_correlation_def Let_def)
  have s1: "sorted (weathers_y ?h) \<and> distinct (weathers_y ?h)"
    by (simp add: observed_weathers_def)
  have s2: "sorted (moods_x ?h) \<and> distinct (moods_x ?h)"
    by (simp add: observed_moods_def)
  have s3: "set (weathers_y ?h) = {c. c \<noteq> [] \<and> (\<exists>e\<in>set entries. entry_condition e = Some c)}"
    by (simp add: observed_weathers_set)
  have s4: "set (moods_x ?h) = (\<Union>e\<in>set entries. set (tags_of e))"
    by (simp add: observed_moods_set)
  have s5: "keys_unambiguous entries \<longrightarrow>
                matrix_z ?h = map (\<lambda>w. map (\<lambda>m. occurrences entries w m) (moods_x ?h)) (weathers_y ?h)
              \<and> sum_list (concat (matrix_z ?h)) =
                  int (length (filter (\<lambda>p. fst p \<in> set (weathers_y ?h)) (tag_pairs entries)))"
    by (simp add: grid_cells grid_total)
  from h s1 s2 s3 s4 s5
  show "\<exists>h. create_weather_mood_correlation entries = Some h
          \<and> sorted (weathers_y h) \<and> distinct (weathers_y h)
          \<and> set (weathers_y h) = {c. c \<noteq> [] \<and> (\<exists>e\<in>set entries. entry_condition e = Some c)}
          \<and> sorted (moods_x h) \<and> distinct (moods_x h)
          \<and> set (moods_x h) = (\<Union>e\<in>set entries. set (tags_of e))
          \<and> (keys_unambiguous entries \<longrightarrow>
                matrix_z h = map (\<lambda>w. map (\<lambda>m. occurrences entries w m) (moods_x h)) (weathers_y h)
              \<and> sum_list (concat (matrix_z h)) =
                  int (length (filter (\<lambda>p. fst p \<in> set (weathers_y h)) (tag_pairs entries))))"
    by blast
next
  assume "list_all (\<lambda>e. distinct (tags_of e)) entries"
  then show "occurrences entries w m =
          int (length (filter (\<lambda>e. weather_key e = w \<and> m \<in> set (tags_of e)) entries))"
    by (rule occurrences_entries)
next
  show "create_weather_mood_correlation grid_example =
       Some \<lparr>moods_x = [''cozy'', ''energetic'', ''reflective''],
             weathers_y = [''rainy'', ''sunny''],
             matrix_z = [[1, 0, 1], [0, 1, 0]]\<rparr>"
    by (rule grid_example_value)
next
  show "sum_list (concat [[1, 0, 1], [0, 1, (0::int)]]) = 3"
    by simp
qed

text \<open>
  The example journal is not empty, its keys are unambiguous and no entry lists a tag
  twice; its cell for rainy and cozy is 1.
\<close>

theorem correlation_grid_witness:
  "grid_example \<noteq> [] \<and> keys_unambiguous grid_example
   \<and> list_all (\<lambda>e. distinct (tags_of e)) grid_example
   \<and> (\<exists>h. create_weather_mood_correlation grid_example = Some h
          \<and> matrix_z h = map (\<lambda>w. map (\<lambda>m. occurrences grid_example w m) (moods_x h)) (weathers_y h)
          \<and> sum_list (concat (matrix_z h)) =
              int (length (filter (\<lambda>p. fst p \<in> set (weathers_y h)) (tag_pairs grid_example))))
   \<and> occurrences grid_example ''rainy'' ''cozy'' =
        int (length (filter (\<lambda>e. weather_key e = ''rainy'' \<and> ''cozy'' \<in> set (tags_of e)) grid_example))"
proof -
  have h1: "grid_example \<noteq> []"
    by (simp add: grid_example_def)
  have h2: "keys_unambiguous grid_example"
    by (simp add: keys_unambiguous_def grid_example_def observed_moods_def tagged_entry_simps
          key_of_def pair_key_def)
  have h3: "list_all (\<lambda>e. distinct (tags_of e)) grid_example"
    by (simp add: grid_example_def tagged_entry_simps)
  show ?thesis
    using correlation_grid [of grid_example "''rainy''" "''cozy''"] h1 h2 h3 by blast
qed

text \<open>
  Claim C7 as it is written fails for an entry that lists a tag twice: the cell counts
  both occurrences, and there is one entry with the condition that carries the tag.
\<close>

theorem correlation_grid_repeated_tag:
  "create_weather_mood_correlation repeated_tag_example =
     Some \<lparr>moods_x = [''cozy''], weathers_y = [''rainy''], matrix_z = [[2]]\<rparr>
   \<and> length (filter (\<lambda>e. entry_condition e = Some ''rainy'' \<and> ''cozy'' \<in> set (tags_of e))
               repeated_tag_example) = 1"
  by (simp add: create_weather_mood_correlation_def repeated_tag_example_def observed_moods_def
        observed_weathers_def weather_mood_pairs_of_def tagged_entry_simps cell_def pair_key_def
        count_up_def List.map_filter_def Let_def)

text \<open>
  An entry that \<open>create_entry\<close> wrote from a sample without a condition holds the
  condition \<open>None\<close>; the grid files it under the text \<open>None\<close>, which is no row, and
  not under \<open>unknown\<close>.
\<close>

lemma no_condition_grid:
  "create_weather_mood_correlation no_condition_example =
     Some \<lparr>moods_x = [''calm''], weathers_y = [''unknown''], matrix_z = [[1]]\<rparr>
   \<and> map weather_key no_condition_example = [''None'', ''unknown'']"
  by (simp add: create_weather_mood_correlation_def no_condition_example_def observed_moods_def
        observed_weathers_def weather_mood_pairs_of_def tagged_entry_simps cell_def pair_key_def
        count_up_def List.map_filter_def Let_def create_entry_def example_weather_def
        weather_key_def entry_condition_def tags_of_def tagged_entry_def)

text \<open>
  Where two combinations have the same key the cells of both show the sum of their counts:
  here two tag occurrences give a grid whose cells sum to 4.
\<close>

lemma colliding_keys_grid:
  "create_weather_mood_correlation colliding_keys_example =
     Some \<lparr>moods_x = [''calm'', ''cloudy_calm''], weathers_y = [''partly'', ''partly_cloudy''],
           matrix_z = [[0, 2], [2, 0]]\<rparr>
   \<and> length (tag_pairs colliding_keys_example) = 2
   \<and> \<not> keys_unambiguous colliding_keys_example"
  by (simp add: create_weather_mood_correlation_def colliding_keys_example_def observed_moods_def
        observed_weathers_def weather_mood_pairs_of_def tagged_entry_simps cell_def pair_key_def
        count_up_def List.map_filter_def Let_def tag_pairs_def keys_unambiguous_def key_of_def)


section \<open>Properties of the prompt generator\<close>

declare fill_primary.simps [simp del]

lemma templates_single_field: "list_all single_field all_templates"
  by code_simp

lemma templates_signatures: "distinct (map signature all_templates)"
  by code_simp

lemma emit_Cons: "emit [c] (emit p r) = emit (c # p) r"
  by (cases r) simp_all

lemma emit_Nil: "emit [] r = r"
  by (cases r) simp_all

lemma emit_append: "emit p (emit q r) = emit (p @ q) r"
  by (cases r) simp_all

lemma fmt_literal: "brace_free p \<Longrightarrow> fmt Lit (p @ rest) kw = emit p (fmt Lit rest kw)"
proof (induction p)
  case Nil
  then show ?case by (simp add: emit_Nil)
next
  case (Cons c p)
  then have "c \<noteq> CHR ''{''" "c \<noteq> CHR ''}''" "brace_free p"
    by (auto simp add: brace_free_def)
  with Cons.IH show ?case
    by (simp add: emit_Cons)
qed

lemma fmt_literal_all: "brace_free s \<Longrightarrow> fmt Lit s kw = Inr s"
  using fmt_literal [of s "[]" kw] by simp

lemma fmt_field:
  "CHR ''}'' \<notin> set n \<Longrightarrow>
   fmt (Field acc) (n @ CHR ''}'' # s) kw =
     (case dict_get kw (acc @ n) of
        None \<Rightarrow> Inl (KeyError (acc @ n))
      | Some v \<Rightarrow> emit v (fmt Lit s kw))"
proof (induction n arbitrary: acc)
  case Nil
  then show ?case by (simp split: option.splits)
next
  case (Cons a n)
  then have a: "a \<noteq> CHR ''}''" and n: "CHR ''}'' \<notin> set n"
    by auto
  have "fmt (Field acc) ((a # n) @ CHR ''}'' # s) kw = fmt (Field (acc @ [a])) (n @ CHR ''}'' # s) kw"
    using a by simp
  also have "\<dots> = (case dict_get kw ((acc @ [a]) @ n) of
        None \<Rightarrow> Inl (KeyError ((acc @ [a]) @ n))
      | Some v \<Rightarrow> emit v (fmt Lit s kw))"
    by (rule Cons.IH [OF n])
  finally show ?case by (simp only: append_assoc append_Cons append_Nil)
qed

lemma fmt_open:
  assumes "brace_free n"
  shows "fmt Lit (CHR ''{'' # n @ CHR ''}'' # s) kw = fmt (Field []) (n @ CHR ''}'' # s) kw"
proof (cases n)
  case Nil
  then show ?thesis by simp
next
  case (Cons c n')
  with assms have "c \<noteq> CHR ''{''"
    by (auto simp add: brace_free_def)
  with Cons show ?thesis by simp
qed

lemma format_single_field:
  assumes "single_field t"
  shows "format t (format_args d c) =
     Inr (lit_before t @ (if field_name t = ''weather_desc'' then d
                           else replace_char CHR ''_'' CHR '' '' c) @ lit_after t)"
proof -
  let ?p = "lit_before t" and ?n = "field_name t" and ?s = "lit_after t"
  let ?v = "if ?n = ''weather_desc'' then d else replace_char CHR ''_'' CHR '' '' c"
  let ?kw = "format_args d c"
  have t: "t = ?p @ CHR ''{'' # ?n @ CHR ''}'' # ?s"
    and bf: "brace_free ?p" "brace_free ?n" "brace_free ?s"
    and nm: "?n = ''weather_desc'' \<or> ?n = ''weather_condition''"
    using assms by (simp_all add: single_field_def)
  have look: "dict_get ?kw ?n = Some ?v"
    using nm by (auto simp add: format_args_def)
  have close: "CHR ''}'' \<notin> set ?n"
    using bf(2) by (simp add: brace_free_def)
  have "fmt (Field []) (?n @ CHR ''}'' # ?s) ?kw = emit ?v (fmt Lit ?s ?kw)"
    using fmt_field [OF close, of "[]" ?s ?kw] look by simp
  also have "\<dots> = Inr (?v @ ?s)"
    by (simp only: fmt_literal_all [OF bf(3)] emit.simps)
  finally have field: "fmt (Field []) (?n @ CHR ''}'' # ?s) ?kw = Inr (?v @ ?s)" .
  have "format t ?kw = fmt Lit (?p @ CHR ''{'' # ?n @ CHR ''}'' # ?s) ?kw"
    unfolding format_def using t by simp
  also have "\<dots> = emit ?p (fmt (Field []) (?n @ CHR ''}'' # ?s) ?kw)"
    by (simp only: fmt_literal [OF bf(1)] fmt_open [OF bf(2)])
  also have "\<dots> = Inr (?p @ ?v @ ?s)"
    by (simp only: field emit.simps)
  finally show ?thesis .
qed

lemma signature_rendered:
  assumes "single_field t"
  shows "signature (lit_before t @ v @ lit_after t) = signature t"
proof -
  let ?p = "lit_before t" and ?n = "field_name t" and ?s = "lit_after t"
  have t: "t = ?p @ CHR ''{'' # ?n @ CHR ''}'' # ?s"
    and len: "2 \<le> length ?p"
    and tail: "take 2 t = ''Wh'' \<or> 12 \<le> length ?s"
    using assms by (simp_all add: single_field_def)
  have two: "take 2 (?p @ v @ ?s) = take 2 ?p" "take 2 (?p @ CHR ''{'' # ?n @ CHR ''}'' # ?s) = take 2 ?p"
    using len by simp_all
  have two_t: "take 2 t = take 2 ?p"
    using two(2) t by simp
  have A: "take 2 (?p @ v @ ?s) = take 2 t"
    using two(1) two_t by simp
  show ?thesis
  proof (cases "take 2 t = ''Wh''")
    case True
    then show ?thesis
      unfolding signature_def A by simp
  next
    case False
    with tail have l12: "12 \<le> length ?s" by blast
    have "take 12 (rev (?p @ v @ ?s)) = take 12 (rev ?s)"
      using l12 by simp
    moreover have "take 12 (rev (?p @ CHR ''{'' # ?n @ CHR ''}'' # ?s)) = take 12 (rev ?s)"
      using l12 by simp
    then have "take 12 (rev t) = take 12 (rev ?s)"
      using t by simp
    ultimately have B: "take 12 (rev (?p @ v @ ?s)) = take 12 (rev t)"
      by simp
    show ?thesis
      unfolding signature_def A B by (rule refl)
  qed
qed

lemma rendering_injective:
  assumes "t1 \<in> set all_templates" "t2 \<in> set all_templates"
    and "format t1 (format_args d c) = Inr r" "format t2 (format_args d c) = Inr r"
  shows "t1 = t2"
proof -
  have sf: "single_field t1" "single_field t2"
    using assms(1,2) templates_single_field by (simp_all add: list_all_iff)
  have r1: "r = lit_before t1 @ (if field_name t1 = ''weather_desc'' then d
                           else replace_char CHR ''_'' CHR '' '' c) @ lit_after t1"
    using assms(3) format_single_field [OF sf(1), of d c] by simp
  have r2: "r = lit_before t2 @ (if field_name t2 = ''weather_desc'' then d
                           else replace_char CHR ''_'' CHR '' '' c) @ lit_after t2"
    using assms(4) format_single_field [OF sf(2), of d c] by simp
  have "signature r = signature t1"
    by (subst r1) (rule signature_rendered [OF sf(1)])
  moreover have "signature r = signature t2"
    by (subst r2) (rule signature_rendered [OF sf(2)])
  ultimately have "signature t1 = signature t2" by simp
  moreover have "inj_on signature (set all_templates)"
    using templates_signatures by (simp add: distinct_map)
  ultimately show ?thesis
    using assms(1,2) by (simp add: inj_on_eq_iff)
qed

lemma starts_with_iff: "starts_with k s = (\<exists>b. s = k @ b)"
  by (induction k s rule: starts_with.induct) auto

lemma substr_in_split: "substr_in k s \<Longrightarrow> \<exists>a b. s = a @ k @ b"
proof (induction s)
  case Nil
  then show ?case by simp
next
  case (Cons c cs)
  from Cons.prems have "starts_with k (c # cs) \<or> substr_in k cs"
    by simp
  then show ?case
  proof
    assume "starts_with k (c # cs)"
    then obtain b where "c # cs = k @ b"
      unfolding starts_with_iff by blast
    then have "c # cs = [] @ k @ b" by simp
    then show ?thesis by blast
  next
    assume "substr_in k cs"
    from Cons.IH [OF this] obtain a b where "cs = a @ k @ b" by blast
    then have "c # cs = (c # a) @ k @ b" by simp
    then show ?thesis by blast
  qed
qed

lemma token_inside:
  assumes p: "CHR ''{'' \<notin> set p" and s: "CHR ''}'' \<notin> set s"
    and eq: "p @ v @ s = a @ (CHR ''{'' # body @ [CHR ''}'']) @ b"
  shows "\<exists>x y. v = x @ (CHR ''{'' # body @ [CHR ''}'']) @ y"
proof -
  let ?tok = "CHR ''{'' # body @ [CHR ''}'']"
  from eq obtain us where
    "(p = a @ us \<and> us @ v @ s = ?tok @ b) \<or> (p @ us = a \<and> v @ s = us @ ?tok @ b)"
    unfolding append_eq_append_conv2 by blast
  then have "\<exists>us. v @ s = us @ ?tok @ b"
  proof
    assume h: "p = a @ us \<and> us @ v @ s = ?tok @ b"
    have "us = []"
    proof (cases us)
      case Nil
      then show ?thesis .
    next
      case (Cons u us')
      with h have "u = CHR ''{''" by simp
      with Cons h have "CHR ''{'' \<in> set p" by simp
      with p show ?thesis by blast
    qed
    with h have "v @ s = [] @ ?tok @ b" by simp
    then show ?thesis by blast
  next
    assume "p @ us = a \<and> v @ s = us @ ?tok @ b"
    then show ?thesis by blast
  qed
  then obtain us where "v @ s = (us @ ?tok) @ b" by auto
  then obtain ws where
    "(v = (us @ ?tok) @ ws \<and> ws @ s = b) \<or> (v @ ws = us @ ?tok \<and> s = ws @ b)"
    unfolding append_eq_append_conv2 by blast
  then show ?thesis
  proof
    assume "v = (us @ ?tok) @ ws \<and> ws @ s = b"
    then have "v = us @ ?tok @ ws" by simp
    then show ?thesis by blast
  next
    assume h: "v @ ws = us @ ?tok \<and> s = ws @ b"
    have "ws = []"
    proof (rule ccontr)
      assume ne: "ws \<noteq> []"
      then have "last ws = last (v @ ws)" by simp
      also have "\<dots> = last (us @ ?tok)" using h by simp
      also have "\<dots> = CHR ''}''" by simp
      finally have "CHR ''}'' \<in> set ws"
        using ne last_in_set by metis
      with h have "CHR ''}'' \<in> set s" by simp
      with s show False by blast
    qed
    with h have "v = us @ ?tok @ []" by simp
    then show ?thesis by blast
  qed
qed

lemma no_token:
  assumes "brace_free p" "brace_free s"
    and v: "brace_free v \<or> CHR ''_'' \<notin> set v"
    and u: "CHR ''_'' \<in> set body"
  shows "\<not> substr_in (CHR ''{'' # body @ [CHR ''}'']) (p @ v @ s)"
proof
  assume "substr_in (CHR ''{'' # body @ [CHR ''}'']) (p @ v @ s)"
  then obtain a b where "p @ v @ s = a @ (CHR ''{'' # body @ [CHR ''}'']) @ b"
    using substr_in_split by blast
  then obtain x y where "v = x @ (CHR ''{'' # body @ [CHR ''}'']) @ y"
    using token_inside [of p s v a body b] assms(1,2) by (auto simp add: brace_free_def)
  then have "CHR ''{'' \<in> set v" "CHR ''_'' \<in> set v"
    using u by simp_all
  with v show False
    by (auto simp add: brace_free_def)
qed

lemma randbelow_less: "0 < n \<Longrightarrow> fst (randbelow n g) < n"
  by (cases g) simp_all

lemma swap_props:
  assumes "i < length xs" "j < length xs"
  shows "length (swap i j xs) = length xs" "set (swap i j xs) = set xs"
    "distinct (map f (swap i j xs)) = distinct (map f xs)"
proof -
  show "length (swap i j xs) = length xs"
    by (simp add: swap_def)
  show "set (swap i j xs) = set xs"
    unfolding swap_def using assms by (simp add: set_swap)
  have m: "map f (swap i j xs) = (map f xs)[i := map f xs ! j, j := map f xs ! i]"
    unfolding swap_def using assms by (simp add: map_update)
  have "distinct ((map f xs)[i := map f xs ! j, j := map f xs ! i]) = distinct (map f xs)"
    using assms by (intro distinct_swap) simp_all
  then show "distinct (map f (swap i j xs)) = distinct (map f xs)"
    by (simp only: m)
qed

lemma shuffle_from_props:
  "i < length xs \<Longrightarrow>
   length (shuffle_from i xs g) = length xs \<and> set (shuffle_from i xs g) = set xs
   \<and> distinct (map f (shuffle_from i xs g)) = distinct (map f xs)"
proof (induction i arbitrary: xs g)
  case 0
  then show ?case by simp
next
  case (Suc i)
  let ?j = "fst (randbelow (Suc i + 1) g)"
  have j: "?j < length xs"
    using randbelow_less [of "Suc i + 1" g] Suc.prems by simp
  note sw = swap_props(1,2) [OF Suc.prems j] swap_props(3) [OF Suc.prems j, where f = f]
  have "i < length (swap (Suc i) ?j xs)"
    using Suc.prems sw(1) by simp
  from Suc.IH [OF this, of "snd (randbelow (Suc i + 1) g)"] sw show ?case
    by simp
qed

lemma shuffle_props:
  "length (shuffle xs g) = length xs \<and> set (shuffle xs g) = set xs
   \<and> distinct (map f (shuffle xs g)) = distinct (map f xs)"
proof (cases xs)
  case Nil
  then show ?thesis by (simp add: shuffle_def)
next
  case (Cons a as)
  then have "length xs - 1 < length xs" by simp
  from shuffle_from_props [OF this] show ?thesis
    by (simp add: shuffle_def)
qed

lemma gen_inv_step:
  assumes inv: "gen_inv pool kw N (prompts, used, g)"
    and lt: "int (length prompts) < N"
    and tm: "template \<in> set pool" "template \<notin> used"
    and f: "format template kw = Inr r"
  shows "gen_inv pool kw N
           (prompts @ [\<lparr>mood = m, prompt_text = r, is_primary = b\<rparr>], insert template used, g')"
proof -
  from inv obtain ts where ts: "distinct ts" "set ts \<subseteq> used" "set ts \<subseteq> set pool"
      "list_all2 (\<lambda>p t. format t kw = Inr (prompt_text p)) prompts ts"
    unfolding gen_inv_def by auto
  have "distinct (ts @ [template])"
    using ts(1,2) tm(2) by auto
  moreover have "set (ts @ [template]) \<subseteq> insert template used"
    using ts(2) by auto
  moreover have "set (ts @ [template]) \<subseteq> set pool"
    using ts(3) tm(1) by auto
  moreover have "list_all2 (\<lambda>p t. format t kw = Inr (prompt_text p))
      (prompts @ [\<lparr>mood = m, prompt_text = r, is_primary = b\<rparr>]) (ts @ [template])"
    using ts(4) f by (intro list_all2_appendI) simp_all
  moreover have "int (length (prompts @ [\<lparr>mood = m, prompt_text = r, is_primary = b\<rparr>])) \<le> max 0 N"
    using lt by simp
  ultimately show ?thesis
    unfolding gen_inv_def fst_conv snd_conv by blast
qed

lemma choice_available:
  assumes "available = filter (\<lambda>t. t \<notin> used) mts" "available \<noteq> []"
  shows "available ! fst (randbelow (length available) g) \<in> set mts"
    "available ! fst (randbelow (length available) g) \<notin> used"
proof -
  have "fst (randbelow (length available) g) < length available"
    using assms(2) by (intro randbelow_less) simp
  then have "available ! fst (randbelow (length available) g) \<in> set available"
    by simp
  then show "available ! fst (randbelow (length available) g) \<in> set mts"
    "available ! fst (randbelow (length available) g) \<notin> used"
    unfolding assms(1) by simp_all
qed

lemma walk_moods_inv:
  assumes ok: "\<And>t. t \<in> set pool \<Longrightarrow> \<exists>r. format t kw = Inr r"
    and sub: "\<And>m mts. dict_get templates m = Some mts \<Longrightarrow> set mts \<subseteq> set pool"
  shows "gen_inv pool kw N st \<Longrightarrow>
         \<exists>st'. walk_moods templates kw primary N ms st = Inr st' \<and> gen_inv pool kw N st'"
proof (induction ms arbitrary: st)
  case Nil
  then show ?case by simp
next
  case (Cons m rest)
  obtain prompts used g where st: "st = (prompts, used, g)"
    by (cases st) auto
  show ?case
  proof (cases "int (length prompts) \<ge> N")
    case True
    then show ?thesis
      using Cons.prems by (simp add: st)
  next
    case notfull: False
    show ?thesis
    proof (cases "dict_get templates m")
      case None
      then have "walk_moods templates kw primary N (m # rest) st
          = walk_moods templates kw primary N rest st"
        using notfull by (simp add: st)
      with Cons.IH [OF Cons.prems] show ?thesis by simp
    next
      case (Some mts)
      let ?av = "filter (\<lambda>t. t \<notin> used) mts"
      show ?thesis
      proof (cases "?av = []")
        case True
        then have "walk_moods templates kw primary N (m # rest) st
            = walk_moods templates kw primary N rest st"
          using notfull Some by (simp add: st)
        with Cons.IH [OF Cons.prems] show ?thesis by simp
      next
        case False
        let ?t = "?av ! fst (randbelow (length ?av) g)"
        let ?g = "snd (randbelow (length ?av) g)"
        have t: "?t \<in> set mts" "?t \<notin> used"
          using choice_available [OF refl False] by simp_all
        then have pool: "?t \<in> set pool"
          using sub [OF Some] by blast
        then obtain r where r: "format ?t kw = Inr r"
          using ok by blast
        let ?st = "(prompts @ [\<lparr>mood = m, prompt_text = r, is_primary = (m = primary)\<rparr>],
                    insert ?t used, ?g)"
        have "walk_moods templates kw primary N (m # rest) st
            = walk_moods templates kw primary N rest ?st"
          using notfull Some False r by (simp add: st Let_def)
        moreover have "gen_inv pool kw N ?st"
          using Cons.prems notfull pool t(2) r unfolding st
          by (intro gen_inv_step) simp_all
        ultimately show ?thesis
          using Cons.IH [of ?st] by simp
      qed
    qed
  qed
qed

lemma fill_primary_inv:
  assumes ok: "\<And>t. t \<in> set pool \<Longrightarrow> \<exists>r. format t kw = Inr r"
    and sub: "\<And>m mts. dict_get templates m = Some mts \<Longrightarrow> set mts \<subseteq> set pool"
  shows "gen_inv pool kw N st \<Longrightarrow>
         \<exists>st'. fill_primary templates kw primary N st = Inr st' \<and> gen_inv pool kw N st'"
  using ok sub
proof (induction templates kw primary N st rule: fill_primary.induct)
  case (1 templates kw primary N prompts used g)
  note ok' = "1.prems"(2) and sub' = "1.prems"(3)
  show ?case
  proof (cases "int (length prompts) < N")
    case False
    then have "fill_primary templates kw primary N (prompts, used, g) = Inr (prompts, used, g)"
      by (subst fill_primary.simps) simp
    with "1.prems"(1) show ?thesis by simp
  next
    case notfull: True
    show ?thesis
    proof (cases "dict_get templates primary")
      case None
      then have "fill_primary templates kw primary N (prompts, used, g) = Inr (prompts, used, g)"
        by (subst fill_primary.simps) simp
      with "1.prems"(1) show ?thesis by simp
    next
      case (Some pts)
      let ?av = "filter (\<lambda>t. t \<notin> used) pts"
      show ?thesis
      proof (cases "?av = []")
        case True
        then have "fill_primary templates kw primary N (prompts, used, g) = Inr (prompts, used, g)"
          using Some by (subst fill_primary.simps) simp
        with "1.prems"(1) show ?thesis by simp
      next
        case False
        let ?t = "?av ! fst (randbelow (length ?av) g)"
        let ?g = "snd (randbelow (length ?av) g)"
        have t: "?t \<in> set pts" "?t \<notin> used"
          using choice_available [OF refl False] by simp_all
        then have pool: "?t \<in> set pool"
          using sub' [OF Some] by blast
        then obtain r where r: "format ?t kw = Inr r"
          using ok' by blast
        let ?st = "(prompts @ [\<lparr>mood = primary, prompt_text = r, is_primary = True\<rparr>],
                    insert ?t used, ?g)"
        have eq: "fill_primary templates kw primary N (prompts, used, g)
            = fill_primary templates kw primary N ?st"
          using notfull Some False r by (subst fill_primary.simps) (simp add: Let_def)
        have inv: "gen_inv pool kw N ?st"
          using "1.prems"(1) notfull pool t(2) r
          by (intro gen_inv_step) simp_all
        have "\<exists>st'. fill_primary templates kw primary N ?st = Inr st' \<and> gen_inv pool kw N st'"
          using "1.IH" [OF notfull Some refl False refl refl r inv] ok' sub' by blast
        with eq show ?thesis by simp
      qed
    qed
  qed
qed

lemma templates_format_ok:
  "t \<in> set all_templates \<Longrightarrow> \<exists>r. format t (format_args d c) = Inr r"
  using templates_single_field format_single_field [of t d c]
  by (simp add: list_all_iff)

lemma templates_in_pool:
  "dict_get PROMPT_TEMPLATES m = Some mts \<Longrightarrow> set mts \<subseteq> set all_templates"
  unfolding all_templates_def using dict_get_in_set [of PROMPT_TEMPLATES m mts] by force

lemma descriptions_brace_free:
  "list_all (\<lambda>row. brace_free (description (snd row))) WEATHER_MOOD_MAP"
  by (simp add: WEATHER_MOOD_MAP_def brace_free_def)

lemma mood_row_brace_free: "brace_free (description (mood_row w))"
proof -
  obtain c where "dict_get WEATHER_MOOD_MAP c = Some (mood_row w)"
    using mood_row_in_table by blast
  then have "(c, mood_row w) \<in> set WEATHER_MOOD_MAP"
    by (rule dict_get_in_set)
  with descriptions_brace_free show ?thesis
    unfolding list_all_iff by (metis snd_conv)
qed

lemma list_all2_partner:
  "list_all2 R ps ts \<Longrightarrow> p \<in> set ps \<Longrightarrow> \<exists>t\<in>set ts. R p t"
  by (induction ps ts rule: list_all2_induct) auto

lemma rendered_distinct:
  assumes "list_all2 (\<lambda>p t. format t (format_args d c) = Inr (prompt_text p)) ps ts"
    and "distinct ts" and "set ts \<subseteq> set all_templates"
  shows "distinct (map prompt_text ps)"
  using assms
proof (induction ps ts rule: list_all2_induct)
  case Nil
  then show ?case by simp
next
  case (Cons p ps t ts)
  have "prompt_text p \<notin> set (map prompt_text ps)"
  proof
    assume "prompt_text p \<in> set (map prompt_text ps)"
    then obtain q where q: "q \<in> set ps" "prompt_text q = prompt_text p"
      by auto
    then obtain t' where t': "t' \<in> set ts" "format t' (format_args d c) = Inr (prompt_text q)"
      using list_all2_partner [OF Cons.hyps(2) q(1)] by auto
    have "t \<in> set all_templates" "t' \<in> set all_templates"
      using Cons.prems(2) t'(1) by auto
    moreover have "format t' (format_args d c) = Inr (prompt_text p)"
      using t'(2) q(2) by simp
    ultimately have "t = t'"
      using Cons.hyps(1) by (intro rendering_injective [of t t' d c "prompt_text p"])
    with t'(1) Cons.prems(1) show False by simp
  qed
  with Cons show ?case by simp
qed

lemma rendered_no_placeholder:
  assumes "t \<in> set all_templates"
    and "format t (format_args (description (mood_row w)) c) = Inr r"
  shows "\<not> substr_in ''{weather_desc}'' r \<and> \<not> substr_in ''{weather_condition}'' r"
proof -
  let ?d = "description (mood_row w)"
  let ?v = "if field_name t = ''weather_desc'' then ?d else replace_char CHR ''_'' CHR '' '' c"
  have sf: "single_field t"
    using assms(1) templates_single_field by (simp add: list_all_iff)
  then have bf: "brace_free (lit_before t)" "brace_free (lit_after t)"
    by (simp_all add: single_field_def)
  have r: "r = lit_before t @ ?v @ lit_after t"
    using assms(2) format_single_field [OF sf, of ?d c] by simp
  have "CHR ''_'' \<notin> set (replace_char CHR ''_'' CHR '' '' c)"
    by (auto simp add: replace_char_def)
  then have v: "brace_free ?v \<or> CHR ''_'' \<notin> set ?v"
    using mood_row_brace_free [of w] by simp
  have "\<not> substr_in (CHR ''{'' # ''weather_desc'' @ [CHR ''}'']) (lit_before t @ ?v @ lit_after t)"
    by (rule no_token [OF bf v]) simp
  moreover
  have "\<not> substr_in (CHR ''{'' # ''weather_condition'' @ [CHR ''}'']) (lit_before t @ ?v @ lit_after t)"
    by (rule no_token [OF bf v]) simp
  ultimately show ?thesis
    unfolding r by simp
qed

lemma generate_prompts_unfold:
  "generate_prompts g w N =
     (case walk_moods PROMPT_TEMPLATES
             (format_args (description (mood_row w))
                (case condition w of None \<Rightarrow> ''partly_cloudy'' | Some c \<Rightarrow> c))
             (primary_mood (mood_row w)) N
             (primary_mood (mood_row w) #
              merge_temp_moods (primary_mood (mood_row w))
                (case dict_get TEMP_MODIFIERS
                        (case temperature_category w of None \<Rightarrow> ''mild'' | Some c \<Rightarrow> c) of
                   None \<Rightarrow> [] | Some ti \<Rightarrow> moods ti)
                (secondary_moods (mood_row w)))
             ([], {}, g) of
        Inl e \<Rightarrow> Inl e
      | Inr st \<Rightarrow>
          (case fill_primary PROMPT_TEMPLATES
                  (format_args (description (mood_row w))
                     (case condition w of None \<Rightarrow> ''partly_cloudy'' | Some c \<Rightarrow> c))
                  (primary_mood (mood_row w)) N st of
             Inl e \<Rightarrow> Inl e
           | Inr (prompts, used, g') \<Rightarrow> Inr (shuffle prompts g')))"
  unfolding generate_prompts_def Let_def fallback_row option.case mood_row_def [symmetric]
    determine_moods_eq sum.case prod.case
  by (rule refl)

text \<open>
  Claim C4.  For every weather sample, every random source and every requested count
  \<open>N\<close>, \<open>generate_prompts\<close> returns a list of candidates and raises nothing; the list
  has at most \<open>N\<close> candidates (none when \<open>N\<close> is not positive, and fewer than \<open>N\<close>
  when the templates run out); no two candidates have the same text; and no text contains
  the placeholder \<open>{weather_desc}\<close> or \<open>{weather_condition}\<close>.
\<close>

theorem generate_prompts_candidates:
  "\<exists>ps. generate_prompts g w N = Inr ps
     \<and> int (length ps) \<le> max 0 N
     \<and> distinct (map prompt_text ps)
     \<and> list_all (\<lambda>p. \<not> substr_in ''{weather_desc}'' (prompt_text p)
                    \<and> \<not> substr_in ''{weather_condition}'' (prompt_text p)) ps"
proof -
  let ?c = "case condition w of None \<Rightarrow> ''partly_cloudy'' | Some c \<Rightarrow> c"
  let ?kw = "format_args (description (mood_row w)) ?c"
  let ?primary = "primary_mood (mood_row w)"
  let ?ms = "?primary # merge_temp_moods ?primary
                (case dict_get TEMP_MODIFIERS
                        (case temperature_category w of None \<Rightarrow> ''mild'' | Some c \<Rightarrow> c) of
                   None \<Rightarrow> [] | Some ti \<Rightarrow> moods ti)
                (secondary_moods (mood_row w))"
  have inv0: "gen_inv all_templates ?kw N ([], {}, g)"
    by (simp add: gen_inv_def)
  have "\<exists>st'. walk_moods PROMPT_TEMPLATES ?kw ?primary N ?ms ([], {}, g) = Inr st'
      \<and> gen_inv all_templates ?kw N st'"
  proof (rule walk_moods_inv [where pool = all_templates and templates = PROMPT_TEMPLATES])
    fix t
    assume "t \<in> set all_templates"
    then show "\<exists>r. format t ?kw = Inr r" by (rule templates_format_ok)
  next
    fix m mts
    assume "dict_get PROMPT_TEMPLATES m = Some mts"
    then show "set mts \<subseteq> set all_templates" by (rule templates_in_pool)
  next
    show "gen_inv all_templates ?kw N ([], {}, g)" by (rule inv0)
  qed
  then obtain st1 where st1: "walk_moods PROMPT_TEMPLATES ?kw ?primary N ?ms ([], {}, g) = Inr st1"
    and inv1: "gen_inv all_templates ?kw N st1"
    by blast
  have "\<exists>st'. fill_primary PROMPT_TEMPLATES ?kw ?primary N st1 = Inr st'
      \<and> gen_inv all_templates ?kw N st'"
  proof (rule fill_primary_inv [where pool = all_templates and templates = PROMPT_TEMPLATES])
    fix t
    assume "t \<in> set all_templates"
    then show "\<exists>r. format t ?kw = Inr r" by (rule templates_format_ok)
  next
    fix m mts
    assume "dict_get PROMPT_TEMPLATES m = Some mts"
    then show "set mts \<subseteq> set all_templates" by (rule templates_in_pool)
  next
    show "gen_inv all_templates ?kw N st1" by (rule inv1)
  qed
  then obtain st2 where st2: "fill_primary PROMPT_TEMPLATES ?kw ?primary N st1 = Inr st2"
    and inv2: "gen_inv all_templates ?kw N st2"
    by blast
  obtain prompts used g' where s: "st2 = (prompts, used, g')"
    by (cases st2) auto
  have st2': "fill_primary PROMPT_TEMPLATES ?kw ?primary N st1 = Inr (prompts, used, g')"
    using st2 s by simp
  have res: "generate_prompts g w N = Inr (shuffle prompts g')"
    by (simp only: generate_prompts_unfold st1 st2' sum.case prod.case)
  from inv2 obtain ts where len: "int (length prompts) \<le> max 0 N"
    and ts: "distinct ts" "set ts \<subseteq> set all_templates"
      "list_all2 (\<lambda>p t. format t ?kw = Inr (prompt_text p)) prompts ts"
    unfolding gen_inv_def s by auto
  have d: "distinct (map prompt_text prompts)"
    using rendered_distinct [OF ts(3) ts(1) ts(2)] .
  have np: "\<not> substr_in ''{weather_desc}'' (prompt_text p)
      \<and> \<not> substr_in ''{weather_condition}'' (prompt_text p)" if "p \<in> set prompts" for p
  proof -
    from list_all2_partner [OF ts(3) that]
    obtain t where "t \<in> set ts" "format t ?kw = Inr (prompt_text p)"
      by blast
    then show ?thesis
      using rendered_no_placeholder [of t w ?c "prompt_text p"] ts(2) by blast
  qed
  note sh = shuffle_props [of prompts g' prompt_text]
  have "int (length (shuffle prompts g')) \<le> max 0 N"
    using len sh by simp
  moreover have "distinct (map prompt_text (shuffle prompts g'))"
    using d sh by simp
  moreover have "list_all (\<lambda>p. \<not> substr_in ''{weather_desc}'' (prompt_text p)
                    \<and> \<not> substr_in ''{weather_condition}'' (prompt_text p)) (shuffle prompts g')"
    unfolding list_all_iff using np sh by blast
  ultimately show ?thesis
    using res by blast
qed

end
